theory Spec2Isabelle
  imports Main "HOL-Library.Word" "HOL-Library.Code_Target_Numeral"
begin

unbundle bit_operations_syntax

section \<open>Byte strings: the routines of package strings the code calls\<close>

text \<open>
  A Go string is a sequence of bytes; it is modelled as a \<^typ>\<open>string\<close>, one
  \<^typ>\<open>char\<close> per byte.  The separator and comment runes of the decoder are single
  bytes here (the runes of the ASCII range), so \<open>string(d.sep)\<close> is the one-byte
  string \<open>[sep d]\<close>.
\<close>

definition HasPrefix :: "string \<Rightarrow> string \<Rightarrow> bool" where
  "HasPrefix s prefix = (length s \<ge> length prefix \<and> take (length prefix) s = prefix)"

definition HasSuffix :: "string \<Rightarrow> string \<Rightarrow> bool" where
  "HasSuffix s suffix =
     (length s \<ge> length suffix \<and> drop (length s - length suffix) s = suffix)"

text \<open>\<open>strings.Split(s, string(c))\<close>: always at least one token.\<close>

fun Split :: "string \<Rightarrow> char \<Rightarrow> string list" where
  "Split [] c = [[]]"
| "Split (x # xs) c =
     (if x = c then [] # Split xs c
      else (case Split xs c of [] \<Rightarrow> [[x]] | t # ts \<Rightarrow> (x # t) # ts))"

fun Join :: "string list \<Rightarrow> string \<Rightarrow> string" where
  "Join [] sep = []"
| "Join [a] sep = a"
| "Join (a # b # r) sep = a @ sep @ Join (b # r) sep"

text \<open>
  \<open>strings.Replace(s, "\"\"", "\"", -1)\<close>: every non-overlapping pair of double
  quotes, from the left, becomes one double quote.
\<close>

fun ReplaceQuotes :: "string \<Rightarrow> string" where
  "ReplaceQuotes (a # b # r) =
     (if a = CHR 0x22 \<and> b = CHR 0x22 then CHR 0x22 # ReplaceQuotes r
      else a # ReplaceQuotes (b # r))"
| "ReplaceQuotes s = s"

text \<open>
  \<open>strings.TrimSpace\<close> removes the white space runes of Unicode from both ends.  On
  the bytes of a string these are the six ASCII bytes of \<open>asciiSpace\<close> and the UTF-8
  encodings of U+0085, U+00A0, U+1680, U+2000..U+200A, U+2028, U+2029, U+202F, U+205F
  and U+3000; a byte that starts no such encoding stops the trimming.
\<close>

definition asciiSpace :: "char \<Rightarrow> bool" where
  "asciiSpace c = (c = CHR 0x09 \<or> c = CHR 0x0A \<or> c = CHR 0x0B \<or> c = CHR 0x0C
                   \<or> c = CHR 0x0D \<or> c = CHR 0x20)"

definition space2 :: "char \<Rightarrow> char \<Rightarrow> bool" where
  "space2 a b = (a = CHR 0xC2 \<and> (b = CHR 0x85 \<or> b = CHR 0xA0))"

definition space3 :: "char \<Rightarrow> char \<Rightarrow> char \<Rightarrow> bool" where
  "space3 a b c =
     ((a = CHR 0xE1 \<and> b = CHR 0x9A \<and> c = CHR 0x80)
      \<or> (a = CHR 0xE2 \<and> b = CHR 0x80 \<and>
          ((of_char c :: nat) \<in> {0x80..0x8A} \<or> c = CHR 0xA8 \<or> c = CHR 0xA9 \<or> c = CHR 0xAF))
      \<or> (a = CHR 0xE2 \<and> b = CHR 0x81 \<and> c = CHR 0x9F)
      \<or> (a = CHR 0xE3 \<and> b = CHR 0x80 \<and> c = CHR 0x80))"

fun TrimLeftSpace :: "string \<Rightarrow> string" where
  "TrimLeftSpace [] = []"
| "TrimLeftSpace [a] = (if asciiSpace a then [] else [a])"
| "TrimLeftSpace [a, b] =
     (if asciiSpace a then TrimLeftSpace [b] else if space2 a b then [] else [a, b])"
| "TrimLeftSpace (a # b # c # r) =
     (if asciiSpace a then TrimLeftSpace (b # c # r)
      else if space2 a b then TrimLeftSpace (c # r)
      else if space3 a b c then TrimLeftSpace r
      else a # b # c # r)"

text \<open>The same from the right, on the reversed string (last byte first).\<close>

fun TrimRightSpaceRev :: "string \<Rightarrow> string" where
  "TrimRightSpaceRev [] = []"
| "TrimRightSpaceRev [c] = (if asciiSpace c then [] else [c])"
| "TrimRightSpaceRev [c, b] =
     (if asciiSpace c then TrimRightSpaceRev [b] else if space2 b c then [] else [c, b])"
| "TrimRightSpaceRev (c # b # a # r) =
     (if asciiSpace c then TrimRightSpaceRev (b # a # r)
      else if space2 b c then TrimRightSpaceRev (a # r)
      else if space3 a b c then TrimRightSpaceRev r
      else c # b # a # r)"

definition TrimSpace :: "string \<Rightarrow> string" where
  "TrimSpace s = rev (TrimRightSpaceRev (rev (TrimLeftSpace s)))"

section \<open>Package strconv and encoding/hex\<close>

datatype numError = ErrSyntax | ErrRange

definition isDigit :: "char \<Rightarrow> bool" where
  "isDigit c = (48 \<le> (of_char c :: nat) \<and> (of_char c :: nat) \<le> 57)"

definition digitVal :: "char \<Rightarrow> nat" where
  "digitVal c = of_char c - 48"

text \<open>
  The loop of \<open>strconv.ParseUint\<close> in base 10, over the bytes still to read, with the
  value \<open>n\<close> read so far.  It returns at the first byte that is wrong: a byte that
  is no digit is a syntax error, a digit that takes the value above \<open>maxVal\<close> is a
  range error.  So digits that leave the range before a byte that is no digit give
  the range error.  The widths of Go's integer types are at most 64 bits, and for
  them the two tests of the source for an overflow of \<open>uint64\<close> (\<open>n >= cutoff\<close> and
  \<open>n1 < n\<close>) hold only when \<open>n1 > maxVal\<close> does.
\<close>

fun parseUint :: "nat \<Rightarrow> nat \<Rightarrow> string \<Rightarrow> numError + nat" where
  "parseUint mx n [] = Inr n"
| "parseUint mx n (c # r) =
     (if \<not> isDigit c then Inl ErrSyntax
      else if 10 * n + digitVal c > mx then Inl ErrRange
      else parseUint mx (10 * n + digitVal c) r)"

definition IntSize :: nat where "IntSize = 64"

text \<open>\<open>bitSize\<close> is the width of the type; 0 stands for the width of \<open>int\<close>.\<close>

definition width :: "nat \<Rightarrow> nat" where
  "width bitSize = (if bitSize = 0 then IntSize else bitSize)"

definition maxVal :: "nat \<Rightarrow> nat" where
  "maxVal bitSize = 2 ^ width bitSize - 1"

text \<open>
  \<open>strconv.ParseUint(s, 10, bitSize)\<close>: in base 10 only digits are accepted (no sign,
  no underscore); a value above \<open>2^bitSize - 1\<close> is a range error.
\<close>

definition ParseUint :: "string \<Rightarrow> nat \<Rightarrow> numError + nat" where
  "ParseUint s bitSize = (if s = [] then Inl ErrSyntax else parseUint (maxVal bitSize) 0 s)"

text \<open>
  \<open>strconv.ParseInt(s, 10, bitSize)\<close>: one optional sign, then
  \<open>ParseUint(s, 10, bitSize)\<close> on the rest.  A syntax error of \<open>ParseUint\<close> is
  returned; with a range error \<open>ParseUint\<close> returns \<open>maxVal\<close>, and \<open>ParseInt\<close> goes
  on to its own test: the value must lie in \<open>[-2^(bitSize-1), 2^(bitSize-1) - 1]\<close>.
\<close>

definition ParseInt :: "string \<Rightarrow> nat \<Rightarrow> numError + int" where
  "ParseInt s bitSize =
     (if s = [] then Inl ErrSyntax
      else let neg = (hd s = CHR ''-'');
               s1 = (if hd s = CHR ''+'' \<or> hd s = CHR ''-'' then tl s else s);
               r = ParseUint s1 bitSize
           in if r = Inl ErrSyntax then Inl ErrSyntax
              else let un = (case r of Inr n \<Rightarrow> n | Inl err \<Rightarrow> maxVal bitSize);
                       cutoff = (2::nat) ^ (width bitSize - 1)
                   in if \<not> neg \<and> un \<ge> cutoff then Inl ErrRange
                      else if neg \<and> un > cutoff then Inl ErrRange
                      else Inr (if neg then - int un else int un))"

text \<open>\<open>strconv.ParseBool\<close> accepts exactly these twelve spellings.\<close>

definition ParseBool :: "string \<Rightarrow> numError + bool" where
  "ParseBool str =
     (if str \<in> set [''1'', ''t'', ''T'', ''TRUE'', ''true'', ''True''] then Inr True
      else if str \<in> set [''0'', ''f'', ''F'', ''FALSE'', ''false'', ''False''] then Inr False
      else Inl ErrSyntax)"

definition FormatBool :: "bool \<Rightarrow> string" where
  "FormatBool b = (if b then ''true'' else ''false'')"

definition digitChar :: "nat \<Rightarrow> char" where
  "digitChar n = char_of (48 + n)"

fun FormatUint :: "nat \<Rightarrow> string" where
  "FormatUint n = (if n < 10 then [digitChar n] else FormatUint (n div 10) @ [digitChar (n mod 10)])"

declare FormatUint.simps [simp del]

definition FormatInt :: "int \<Rightarrow> string" where
  "FormatInt i = (if i < 0 then CHR ''-'' # FormatUint (nat (- i)) else FormatUint (nat i))"

text \<open>\<open>hex.DecodeString\<close>: an even number of hexadecimal digits, of either case.\<close>

definition fromHexChar :: "char \<Rightarrow> nat option" where
  "fromHexChar c =
     (let n = (of_char c :: nat) in
      if 48 \<le> n \<and> n \<le> 57 then Some (n - 48)
      else if 97 \<le> n \<and> n \<le> 102 then Some (n - 97 + 10)
      else if 65 \<le> n \<and> n \<le> 70 then Some (n - 65 + 10)
      else None)"

fun hexDecodeString :: "string \<Rightarrow> nat list option" where
  "hexDecodeString [] = Some []"
| "hexDecodeString [a] = None"
| "hexDecodeString (a # b # r) =
     (case (fromHexChar a, fromHexChar b, hexDecodeString r) of
        (Some h, Some l, Some bs) \<Rightarrow> Some ((16 * h + l) # bs)
      | _ \<Rightarrow> None)"

section \<open>Go types and values as package reflect shows them\<close>

text \<open>
  A \<open>reflect.Type\<close>.  The sized integer and float types carry their width in bits
  (\<open>Bits()\<close>).  A struct type is the list of its fields in declaration order; of a
  \<open>reflect.StructField\<close> the code reads \<open>Name\<close>, \<open>PkgPath\<close> (empty for an exported
  field), \<open>Anonymous\<close>, \<open>Type\<close> and \<open>Tag.Get("csv")\<close>, which is the component
  \<open>Tag\<close> here.
\<close>

datatype 't structField =
  StructField (Name: string) (PkgPath: string) (Anonymous: bool) (Tag: string) (Type: 't)

datatype gtype =
    TBool
  | TInt nat
  | TUint nat
  | TFloat nat
  | TComplex nat
  | TString
  | TArray nat gtype
  | TSlice gtype
  | TMap gtype gtype
  | TPtr gtype
  | TStruct "gtype structField list"
  | TInterface
  | TChan gtype
  | TFunc

datatype kind =
    KInvalid | KBool | KInt | KUint | KFloat | KComplex | KString | KArray | KSlice | KMap | KPtr
  | KStruct | KInterface | KChan | KFunc

fun Kind :: "gtype \<Rightarrow> kind" where
  "Kind TBool = KBool"
| "Kind (TInt n) = KInt"
| "Kind (TUint n) = KUint"
| "Kind (TFloat n) = KFloat"
| "Kind (TComplex n) = KComplex"
| "Kind TString = KString"
| "Kind (TArray n t) = KArray"
| "Kind (TSlice t) = KSlice"
| "Kind (TMap k t) = KMap"
| "Kind (TPtr t) = KPtr"
| "Kind (TStruct fs) = KStruct"
| "Kind TInterface = KInterface"
| "Kind (TChan t) = KChan"
| "Kind TFunc = KFunc"

fun Bits :: "gtype \<Rightarrow> nat" where
  "Bits (TInt n) = n"
| "Bits (TUint n) = n"
| "Bits (TFloat n) = n"
| "Bits (TComplex n) = n"
| "Bits t = 0"

fun Elem :: "gtype \<Rightarrow> gtype" where
  "Elem (TArray n t) = t"
| "Elem (TSlice t) = t"
| "Elem (TMap k t) = t"
| "Elem (TPtr t) = t"
| "Elem (TChan t) = t"
| "Elem t = t"

fun Key :: "gtype \<Rightarrow> gtype" where
  "Key (TMap k t) = k"
| "Key t = t"

fun Fields :: "gtype \<Rightarrow> gtype structField list" where
  "Fields (TStruct fs) = fs"
| "Fields t = []"

text \<open>
  The data of a \<open>reflect.Value\<close>; its type travels beside it.  A float is its IEEE
  bit pattern.  Slices, maps, pointers and interfaces may be nil (\<open>None\<close>); a map is a
  list of entries with distinct keys; a pointer owns what it points to.
\<close>

datatype gvalue =
    VBool bool
  | VInt int
  | VUint nat
  | VFloat "64 word"
  | VString string
  | VArray "gvalue list"
  | VSlice "gvalue list option"
  | VMap "(string \<times> gvalue) list option"
  | VPtr "gvalue option"
  | VStruct "gvalue list"
  | VInterface "(gtype \<times> gvalue) option"
  | VOpaque

lemma size_Type_field [termination_simp]:
  "f \<in> set fs \<Longrightarrow> size (Type f) < Suc (size_list (size_structField size) fs)"
proof (induction fs)
  case Nil
  then show ?case by simp
next
  case (Cons g gs)
  then show ?case by (cases f) auto
qed

text \<open>\<open>reflect.Zero\<close>: what \<open>reflect.New(t).Elem()\<close> holds.\<close>

fun zero :: "gtype \<Rightarrow> gvalue" where
  "zero TBool = VBool False"
| "zero (TInt n) = VInt 0"
| "zero (TUint n) = VUint 0"
| "zero (TFloat n) = VFloat 0"
| "zero (TComplex n) = VOpaque"
| "zero TString = VString []"
| "zero (TArray n t) = VArray (replicate n (zero t))"
| "zero (TSlice t) = VSlice None"
| "zero (TMap k t) = VMap None"
| "zero (TPtr t) = VPtr None"
| "zero (TStruct fs) = VStruct (map (\<lambda>f. zero (Type f)) fs)"
| "zero TInterface = VInterface None"
| "zero (TChan t) = VOpaque"
| "zero TFunc = VOpaque"

fun IsNil :: "gvalue \<Rightarrow> bool" where
  "IsNil (VSlice None) = True"
| "IsNil (VMap None) = True"
| "IsNil (VPtr None) = True"
| "IsNil (VInterface None) = True"
| "IsNil v = False"

section \<open>Errors\<close>

text \<open>
  Every error value the package builds, by the place that builds it; \<open>ErrCsv e\<close> is
  \<open>fmt.Errorf("csv: %v", e)\<close>, \<open>NumError\<close> is \<open>*strconv.NumError\<close> with its function
  name and input, \<open>ErrUser\<close> an error returned by a method of the caller's type.
  \<open>DecodeError\<close> has the four fields \<open>lineNo\<close>, \<open>fieldNo\<close>, \<open>hint\<close> and \<open>reason\<close> of
  the source.  A run-time panic of the Go program is the value \<open>Panic\<close>.
\<close>

datatype error =
    NumError string string numError
  | ErrUser string
  | ErrMapKeyType
  | ErrNoUnmarshalMethod gtype
  | ErrNoMarshalMethod gtype
  | ErrNotAStruct gtype
  | ErrConflict gtype "nat list" "nat list"
  | ErrFieldNotFound
  | ErrNonPointerUnmarshal
  | ErrNonSliceUnmarshal
  | ErrNonPointerDecodeRecord
  | ErrNonSliceMarshal gtype
  | ErrEmptyHeader
  | ErrReadFailed
  | ErrCsv error
  | DecodeError nat nat string "error option"
  | Panic string

section \<open>typeinfo.go\<close>

record fieldInfo =
  idx :: "nat list"
  name :: string
  flags :: int

type_synonym typeInfo = "fieldInfo list"

definition fElement :: int where "fElement = 1"
definition fAny :: int where "fAny = 2"
definition fMode :: int where "fMode = fElement OR fAny"

text \<open>
  \<open>structFieldInfo\<close> for field number \<open>i\<close> of a struct (\<open>f.Index\<close> is \<open>[i]\<close>).  The
  source returns a nil error on every path.
\<close>

definition structFieldInfo :: "nat \<Rightarrow> gtype structField \<Rightarrow> fieldInfo" where
  "structFieldInfo i f =
     (let tag = Tag f;
          tokens = Split tag CHR '','';
          (tag1, fl) =
            (if length tokens = 1 then (tag, fElement)
             else let fl0 = foldl (\<lambda>fl flag. if flag = ''any'' then fl OR fAny else fl) 0 (tl tokens);
                      mode = fl0 AND fMode
                  in (hd tokens, if mode = 0 \<or> mode = fAny then fl0 OR fElement else fl0))
      in \<lparr> idx = [i], name = (if tag1 \<noteq> [] then tag1 else Name f), flags = fl \<rparr>)"

text \<open>The external name of a field: the name in its tag, or else the name of the field.\<close>

definition fieldName :: "gtype structField \<Rightarrow> string" where
  "fieldName f = name (structFieldInfo 0 f)"

text \<open>\<open>addFieldInfo\<close>: the first field already present under the new name is the conflict.\<close>

definition addFieldInfo :: "gtype \<Rightarrow> typeInfo \<Rightarrow> fieldInfo \<Rightarrow> error + typeInfo" where
  "addFieldInfo typ tinfo newf =
     (case filter (\<lambda>oldf. name newf = name oldf) tinfo of
        oldf # _ \<Rightarrow> Inl (ErrConflict typ (idx oldf) (idx newf))
      | [] \<Rightarrow> Inr (tinfo @ [newf]))"

text \<open>The loop over the fields of an embedded struct, each with \<open>i\<close> put before its path.\<close>

fun addEmbedded :: "gtype \<Rightarrow> nat \<Rightarrow> typeInfo \<Rightarrow> fieldInfo list \<Rightarrow> error + typeInfo" where
  "addEmbedded typ i tinfo [] = Inr tinfo"
| "addEmbedded typ i tinfo (finfo # rest) =
     (case addFieldInfo typ tinfo (finfo\<lparr>idx := i # idx finfo\<rparr>) of
        Inl err \<Rightarrow> Inl err
      | Inr tinfo' \<Rightarrow> addEmbedded typ i tinfo' rest)"

text \<open>
  \<open>getTypeInfo\<close>, with its loop \<open>for i := 0; i < n; i++\<close> as \<open>typeFields\<close> over the
  fields from number \<open>i\<close> on.  What the source keeps in \<open>tinfoMap\<close> is the value this
  function computes for the type, so a later lookup returns the same descriptor.
\<close>

definition embeddedType :: "gtype structField \<Rightarrow> gtype" where
  "embeddedType f = (if Kind (Type f) = KPtr then Elem (Type f) else Type f)"

lemma size_Fields: "Kind typ = KStruct \<Longrightarrow> size_list (size_structField size) (Fields typ) < size typ"
  by (cases "typ") auto

lemma size_embeddedType: "size (embeddedType f) < size_structField size f"
  by (cases f; cases "Type f") (auto simp: embeddedType_def)

function getTypeInfo :: "gtype \<Rightarrow> error + typeInfo"
  and typeFields :: "gtype \<Rightarrow> nat \<Rightarrow> gtype structField list \<Rightarrow> typeInfo \<Rightarrow> error + typeInfo"
where
  "getTypeInfo typ =
     (if Kind typ \<noteq> KStruct then Inl (ErrNotAStruct typ)
      else typeFields typ 0 (Fields typ) [])"
| "typeFields typ i [] tinfo = Inr tinfo"
| "typeFields typ i (f # fs) tinfo =
     (if (PkgPath f \<noteq> [] \<and> \<not> Anonymous f) \<or> Tag f = ''-'' then typeFields typ (Suc i) fs tinfo
      else if Anonymous f \<and> Kind (embeddedType f) = KStruct then
        (case getTypeInfo (embeddedType f) of
           Inl err \<Rightarrow> Inl err
         | Inr inner \<Rightarrow>
             (case addEmbedded typ i tinfo inner of
                Inl err \<Rightarrow> Inl err
              | Inr tinfo' \<Rightarrow> typeFields typ (Suc i) fs tinfo'))
      else (case addFieldInfo typ tinfo (structFieldInfo i f) of
              Inl err \<Rightarrow> Inl err
            | Inr tinfo' \<Rightarrow> typeFields typ (Suc i) fs tinfo'))"
  by pat_completeness auto

termination
proof (relation "measure (\<lambda>x. case x of
          Inl typ \<Rightarrow> 2 * size typ
        | Inr (typ, i, fs, tinfo) \<Rightarrow> 2 * size_list (size_structField size) fs + 1)",
       goal_cases)
  case 1
  show ?case by simp
next
  case (2 t)
  then show ?case using size_Fields [of t] by simp
next
  case (3 t i f fs tinfo)
  show ?case by simp
next
  case (4 t i f fs tinfo)
  show ?case using size_embeddedType [of f] by simp
next
  case (5 t i f fs tinfo x2 x2a)
  show ?case by simp
next
  case (6 t i f fs tinfo x2)
  show ?case by simp
qed

text \<open>
  \<open>fieldInfo.value\<close> walks the index path \<open>idx\<close> from a struct value: below the
  first step a pointer to a struct is followed, and a nil one is set to a new zero
  struct first.  \<open>fieldType\<close> is the type of the field reached, \<open>fieldGet\<close> its value
  (the zero value behind a pointer that is still nil) and \<open>fieldSet\<close> the struct after
  the walk with the field replaced by a new value; \<open>i\<close> counts the steps taken.
\<close>

definition throughPtr :: "nat \<Rightarrow> gtype \<Rightarrow> bool" where
  "throughPtr i t = (i > 0 \<and> Kind t = KPtr \<and> Kind (Elem t) = KStruct)"

definition pointee :: "gtype \<Rightarrow> gvalue \<Rightarrow> gvalue" where
  "pointee t v = (case v of VPtr (Some w) \<Rightarrow> w | _ \<Rightarrow> zero (Elem t))"

definition structFields :: "gvalue \<Rightarrow> gvalue list" where
  "structFields v = (case v of VStruct vs \<Rightarrow> vs | _ \<Rightarrow> [])"

fun fieldType :: "nat \<Rightarrow> gtype \<Rightarrow> nat list \<Rightarrow> gtype" where
  "fieldType i t [] = t"
| "fieldType i t (x # xs) =
     fieldType (Suc i) (Type (Fields (if throughPtr i t then Elem t else t) ! x)) xs"

fun fieldGet :: "nat \<Rightarrow> gtype \<Rightarrow> gvalue \<Rightarrow> nat list \<Rightarrow> gvalue" where
  "fieldGet i t v [] = v"
| "fieldGet i t v (x # xs) =
     (let t1 = (if throughPtr i t then Elem t else t);
          v1 = (if throughPtr i t then pointee t v else v)
      in fieldGet (Suc i) (Type (Fields t1 ! x)) (structFields v1 ! x) xs)"

fun fieldSet :: "nat \<Rightarrow> gtype \<Rightarrow> gvalue \<Rightarrow> nat list \<Rightarrow> gvalue \<Rightarrow> gvalue" where
  "fieldSet i t v [] new = new"
| "fieldSet i t v (x # xs) new =
     (let t1 = (if throughPtr i t then Elem t else t);
          v1 = (if throughPtr i t then pointee t v else v);
          vs = structFields v1;
          s1 = VStruct (vs[x := fieldSet (Suc i) (Type (Fields t1 ! x)) (vs ! x) xs new])
      in if throughPtr i t then VPtr (Some s1) else s1)"

text \<open>
  Of the flags of a \<open>reflect.Value\<close> the code depends on two: \<open>flagAddr\<close> (the value
  is addressable) and \<open>flagRO\<close> (the value was obtained through an unexported field).
  A value can be set when it is addressable and not read-only, and it can be taken
  as an \<open>interface{}\<close> when it is not read-only.  \<open>Value.Set\<close> and the other setters
  panic on a value that cannot be set (\<open>mustBeAssignable\<close>, which looks at \<open>flagRO\<close>
  first); \<open>Value.SetMapIndex\<close> and \<open>reflect.Copy\<close> panic on a read-only value
  (\<open>mustBeExported\<close>).
\<close>

record flag =
  flagAddr :: bool
  flagRO :: bool

definition CanAddr :: "flag \<Rightarrow> bool" where
  "CanAddr fl = flagAddr fl"

definition CanInterface :: "flag \<Rightarrow> bool" where
  "CanInterface fl = (\<not> flagRO fl)"

definition CanSet :: "flag \<Rightarrow> bool" where
  "CanSet fl = (flagAddr fl \<and> \<not> flagRO fl)"

definition mustBeExported :: "flag \<Rightarrow> string \<Rightarrow> error option" where
  "mustBeExported fl method =
     (if flagRO fl
      then Some (Panic (''reflect: '' @ method @ '' using value obtained using unexported field''))
      else None)"

definition mustBeAssignable :: "flag \<Rightarrow> string \<Rightarrow> error option" where
  "mustBeAssignable fl method =
     (if flagRO fl
      then Some (Panic (''reflect: '' @ method @ '' using value obtained using unexported field''))
      else if \<not> flagAddr fl
      then Some (Panic (''reflect: '' @ method @ '' using unaddressable value''))
      else None)"

text \<open>
  The flags along the walk of \<open>fieldInfo.value\<close>, from the flags \<open>fl\<close> of the struct
  it starts at.  \<open>v.Elem()\<close> of a pointer is addressable and keeps \<open>flagRO\<close>.
  \<open>v.Field(x)\<close> keeps \<open>flagAddr\<close>; it is read-only when the field is unexported.  The
  unexported fields of a descriptor are embedded ones, and the flag of an embedded
  field (\<open>flagEmbedRO\<close>) is dropped by the next \<open>Field\<close>: the exported fields of an
  unexported embedded struct can be set.  \<open>valueFlag\<close> gives the flags of the field
  reached; \<open>valuePanic\<close> is the panic of the walk, if it panics: it does where it has
  to set a nil pointer that cannot be set.
\<close>

definition fieldFlag :: "flag \<Rightarrow> gtype structField \<Rightarrow> flag" where
  "fieldFlag fl f = \<lparr> flagAddr = flagAddr fl, flagRO = (PkgPath f \<noteq> []) \<rparr>"

definition elemFlag :: "flag \<Rightarrow> flag" where
  "elemFlag fl = fl\<lparr>flagAddr := True\<rparr>"

fun valueFlag :: "nat \<Rightarrow> flag \<Rightarrow> gtype \<Rightarrow> nat list \<Rightarrow> flag" where
  "valueFlag i fl t [] = fl"
| "valueFlag i fl t (x # xs) =
     (let t1 = (if throughPtr i t then Elem t else t);
          fl1 = (if throughPtr i t then elemFlag fl else fl)
      in valueFlag (Suc i) (fieldFlag fl1 (Fields t1 ! x)) (Type (Fields t1 ! x)) xs)"

fun valuePanic :: "nat \<Rightarrow> flag \<Rightarrow> gtype \<Rightarrow> gvalue \<Rightarrow> nat list \<Rightarrow> error option" where
  "valuePanic i fl t v [] = None"
| "valuePanic i fl t v (x # xs) =
     (case (if throughPtr i t \<and> IsNil v then mustBeAssignable fl ''reflect.Value.Set'' else None) of
        Some p \<Rightarrow> Some p
      | None \<Rightarrow>
          (let t1 = (if throughPtr i t then Elem t else t);
               v1 = (if throughPtr i t then pointee t v else v);
               fl1 = (if throughPtr i t then elemFlag fl else fl)
           in valuePanic (Suc i) (fieldFlag fl1 (Fields t1 ! x)) (Type (Fields t1 ! x))
                         (structFields v1 ! x) xs))"

text \<open>The flags of a value that can be set: what \<open>reflect.New(t).Elem()\<close> and \<open>p.Elem()\<close> give.\<close>

definition settable :: flag where
  "settable = \<lparr> flagAddr = True, flagRO = False \<rparr>"

section \<open>What the caller's types bring: methods, and the float conversions\<close>

text \<open>
  The conversions of floats (\<open>strconv.ParseFloat\<close>, \<open>strconv.FormatFloat\<close> with
  format \<open>'g'\<close> and precision \<open>-1\<close>) and the methods a type of the caller may have are
  parameters of the model.  A method table gives, for a type, the method of that
  type if it implements the interface (\<open>Type.Implements\<close>); the method maps the
  receiver to the receiver after the call.
\<close>

record extern =
  ParseFloat :: "string \<Rightarrow> nat \<Rightarrow> numError + 64 word"
  FormatFloat :: "64 word \<Rightarrow> nat \<Rightarrow> string"
  UnmarshalCSV :: "gtype \<Rightarrow> (string list \<Rightarrow> string list \<Rightarrow> gvalue \<Rightarrow> error option \<times> gvalue) option"
  UnmarshalText :: "gtype \<Rightarrow> (string \<Rightarrow> gvalue \<Rightarrow> error option \<times> gvalue) option"
  MarshalCSV :: "gtype \<Rightarrow> (gvalue \<Rightarrow> error + string list) option"
  MarshalText :: "gtype \<Rightarrow> (gvalue \<Rightarrow> error + string) option"
  Stringer :: "gtype \<Rightarrow> (gvalue \<Rightarrow> string) option"

text \<open>A call through \<open>pv := val.Addr()\<close>: the method of the pointer type, on a pointer to \<open>val\<close>.\<close>

definition viaAddr :: "(gvalue \<Rightarrow> error option \<times> gvalue) \<Rightarrow> gvalue \<Rightarrow> error option \<times> gvalue" where
  "viaAddr m val = (case m (VPtr (Some val)) of
                      (err, VPtr (Some val')) \<Rightarrow> (err, val')
                    | (err, _) \<Rightarrow> (err, val))"

section \<open>unmarshal.go\<close>

definition Separator :: char where "Separator = CHR '',''"
definition Comment :: char where "Comment = CHR ''#''"
definition Wrapper :: string where "Wrapper = [CHR 0x22]"

text \<open>
  The decoder.  \<open>s\<close> is the scanner: the bytes of the input not yet read.
\<close>

record Decoder =
  s :: string
  sep :: char
  comment :: char
  readHeader :: bool
  skipUnknown :: bool
  trim :: bool
  lineNo :: nat
  headerKeys :: "string list"

definition NewDecoder :: "string \<Rightarrow> Decoder" where
  "NewDecoder r = \<lparr> s = r, sep = Separator, comment = Comment, readHeader = True,
                    skipUnknown = True, trim = True, lineNo = 0, headerKeys = [] \<rparr>"

definition Decoder_Header :: "Decoder \<Rightarrow> bool \<Rightarrow> Decoder" where
  "Decoder_Header d h = d\<lparr>readHeader := h\<rparr>"

definition Decoder_Separator :: "Decoder \<Rightarrow> char \<Rightarrow> Decoder" where
  "Decoder_Separator d r = d\<lparr>sep := r\<rparr>"

definition Decoder_Comment :: "Decoder \<Rightarrow> char \<Rightarrow> Decoder" where
  "Decoder_Comment d c = d\<lparr>comment := c\<rparr>"

definition Decoder_Trim :: "Decoder \<Rightarrow> bool \<Rightarrow> Decoder" where
  "Decoder_Trim d t = d\<lparr>trim := t\<rparr>"

definition Decoder_SkipUnknown :: "Decoder \<Rightarrow> bool \<Rightarrow> Decoder" where
  "Decoder_SkipUnknown d t = d\<lparr>skipUnknown := t\<rparr>"

text \<open>
  The loop of \<open>unmarshal\<close> that combines the tokens between quotes: one step for one
  token \<open>v\<close>, on the pair of \<open>combined\<close> and \<open>merged\<close>; the cases in the order of the
  \<open>switch\<close>.
\<close>

definition mergeToken :: "char \<Rightarrow> string list \<times> string \<Rightarrow> string \<Rightarrow> string list \<times> string" where
  "mergeToken sp cm v =
     (let combined = fst cm; merged = snd cm in
      if length v = 1 \<and> HasPrefix v Wrapper then
        (if merged = [] then (combined, merged @ [sp])
         else (combined @ [merged @ [sp]], []))
      else if length v \<ge> 2 \<and> HasPrefix v Wrapper \<and> HasSuffix v Wrapper then
        (combined @ [drop 1 (take (length v) v)], [])
      else if HasPrefix v Wrapper then (combined, drop 1 v)
      else if HasSuffix v Wrapper then
        (combined @ [Join [merged, take (length v - 1) v] [sp]], [])
      else if merged \<noteq> [] then (combined, Join [merged, v] [sp])
      else (combined @ [v], merged))"

definition combineTokens :: "char \<Rightarrow> string list \<Rightarrow> string list" where
  "combineTokens sp tokens = fst (foldl (mergeToken sp) ([], []) tokens)"

definition tokenize :: "Decoder \<Rightarrow> string \<Rightarrow> string list" where
  "tokenize d line = combineTokens (sep d) (Split line (sep d))"

text \<open>
  \<open>derefValue\<close>.  It returns the value to decode into with its type, and how that
  value sits in the argument (so that the argument can be put together again after
  the decoding): directly, behind a pointer, or behind a pointer in an interface.
  Setting a nil pointer needs a settable value (\<open>canSet\<close>); \<open>Value.Set\<close> panics
  otherwise.
\<close>

datatype wrapper = Direct | BehindPtr | BehindIfacePtr gtype

definition derefValue :: "bool \<Rightarrow> gtype \<Rightarrow> gvalue \<Rightarrow> error + (wrapper \<times> gtype \<times> gvalue)" where
  "derefValue canSet typ val =
     (case (Kind typ, val) of
        (KInterface, VInterface (Some (TPtr t, VPtr (Some w)))) \<Rightarrow> Inr (BehindIfacePtr t, t, w)
      | (KPtr, VPtr (Some w)) \<Rightarrow> Inr (BehindPtr, Elem typ, w)
      | (KPtr, _) \<Rightarrow>
          if canSet then Inr (BehindPtr, Elem typ, zero (Elem typ))
          else Inl (Panic ''reflect: reflect.Value.Set using unaddressable value'')
      | _ \<Rightarrow> Inr (Direct, typ, val))"

fun rewrap :: "wrapper \<Rightarrow> gvalue \<Rightarrow> gvalue" where
  "rewrap Direct v = v"
| "rewrap BehindPtr v = VPtr (Some v)"
| "rewrap (BehindIfacePtr t) v = VInterface (Some (TPtr t, VPtr (Some v)))"

text \<open>
  The loop of \<open>findStructField\<close>: the field of the given name if there is one, and the
  number of the last \<open>any\<close> field seen up to there (\<open>-1\<close> for none).
\<close>

fun pickField :: "fieldInfo list \<Rightarrow> nat \<Rightarrow> string \<Rightarrow> int \<Rightarrow> fieldInfo option \<times> int" where
  "pickField [] i nm anyIx = (None, anyIx)"
| "pickField (v # vs) i nm anyIx =
     (let anyIx' = (if flags v AND fAny > 0 then int i else anyIx) in
      if name v \<noteq> nm then pickField vs (Suc i) nm anyIx'
      else (Some v, anyIx'))"

text \<open>
  \<open>findStructField\<close>, on a struct with the flags \<open>fl\<close>.  It returns the field
  descriptor found (or none) and the struct as the walk to the field leaves it: nil
  pointers on the path are allocated, and so is a nil pointer field itself when it
  can be set (\<open>v.CanSet()\<close>).  The \<open>reflect.Value\<close> \<open>v\<close> it returns is the field at
  \<open>idx finfo\<close> of that struct, with the flags \<open>valueFlag 0 fl typ (idx finfo)\<close>.  The
  walk panics at a nil pointer to an embedded struct that cannot be set.
\<close>

definition findStructField :: "flag \<Rightarrow> gtype \<Rightarrow> gvalue \<Rightarrow> string \<Rightarrow> error + (fieldInfo option \<times> gvalue)" where
  "findStructField fl typ val nm =
     (case getTypeInfo typ of
        Inl err \<Rightarrow> Inr (None, val)
      | Inr tinfo \<Rightarrow>
          (let (found, anyIx) = pickField tinfo 0 nm (-1);
               finfo = (if found = None \<and> anyIx \<ge> 0 then Some (tinfo ! nat anyIx) else found)
           in case finfo of
                None \<Rightarrow> Inr (None, val)
              | Some fi \<Rightarrow>
                  (case valuePanic 0 fl typ val (idx fi) of
                     Some p \<Rightarrow> Inl p
                   | None \<Rightarrow>
                       (let t = fieldType 0 typ (idx fi);
                            v = fieldGet 0 typ val (idx fi);
                            v' = (if Kind t = KPtr \<and> IsNil v \<and> CanSet (valueFlag 0 fl typ (idx fi))
                                  then VPtr (Some (zero (Elem t))) else v)
                        in Inr (Some fi, fieldSet 0 typ val (idx fi) v')))))"

text \<open>Storing under a key in the entries of a map.\<close>

fun mapStore :: "(string \<times> gvalue) list \<Rightarrow> string \<Rightarrow> gvalue \<Rightarrow> (string \<times> gvalue) list" where
  "mapStore [] k v = [(k, v)]"
| "mapStore ((k', v') # m) k v = (if k' = k then (k, v) # m else (k', v') # mapStore m k v)"

definition mapEntries :: "gvalue \<Rightarrow> (string \<times> gvalue) list" where
  "mapEntries v = (case v of VMap (Some m) \<Rightarrow> m | _ \<Rightarrow> [])"

text \<open>
  An assignment by one of the setters of \<open>reflect.Value\<close>, and
  \<open>dst.SetMapIndex(key, val)\<close> on the entries \<open>m\<close> of a map: the new value, or the
  panic with the value as it was.
\<close>

definition assign :: "flag \<Rightarrow> string \<Rightarrow> gvalue \<Rightarrow> gvalue \<Rightarrow> error option \<times> gvalue" where
  "assign fl method dst new =
     (case mustBeAssignable fl method of
        Some p \<Rightarrow> (Some p, dst)
      | None \<Rightarrow> (None, new))"

definition store :: "flag \<Rightarrow> (string \<times> gvalue) list \<Rightarrow> string \<Rightarrow> gvalue \<Rightarrow> error option \<times> gvalue" where
  "store fl m k v =
     (case mustBeExported fl ''reflect.Value.SetMapIndex'' of
        Some p \<Rightarrow> (Some p, VMap (Some m))
      | None \<Rightarrow> (None, VMap (Some (mapStore m k v))))"

text \<open>
  The \<open>switch dst.Kind()\<close> of \<open>setValue\<close>, for a non-empty \<open>src\<close>, on a destination
  with the flags \<open>fl\<close>; \<open>typ0\<close> is the type of \<open>dst0\<close>, before the pointer was
  followed.  In the map case the new entry \<open>val\<close> is addressable, so of the three
  branches for it the last (the call of \<open>setValue\<close> on the entry) is never taken.
\<close>

definition setKind :: "extern \<Rightarrow> flag \<Rightarrow> gtype \<Rightarrow> gtype \<Rightarrow> gvalue \<Rightarrow> string \<Rightarrow> string \<Rightarrow> error option \<times> gvalue" where
  "setKind ext fl typ0 t dst src fName =
     (case Kind t of
        KMap \<Rightarrow>
          (case (if IsNil dst then mustBeAssignable fl ''reflect.Value.Set'' else None) of
             Some p \<Rightarrow> (Some p, dst)
           | None \<Rightarrow>
               (let m = mapEntries dst in
                if Kind (Key t) \<noteq> KString then (Some ErrMapKeyType, VMap (Some m))
                else if Kind (Elem t) = KString then store fl m fName (VString src)
                else
                  (let et = Elem t;
                       val = (if Kind et = KPtr then VPtr (Some (zero (Elem et))) else zero et)
                   in case UnmarshalText ext et of
                        Some mth \<Rightarrow>
                          (case mth src val of
                             (Some err, val') \<Rightarrow> (Some err, VMap (Some m))
                           | (None, val') \<Rightarrow> store fl m fName val')
                      | None \<Rightarrow>
                          (case UnmarshalText ext (TPtr et) of
                             Some mth \<Rightarrow>
                               (case viaAddr (mth src) val of
                                  (Some err, val') \<Rightarrow> (Some err, VMap (Some m))
                                | (None, val') \<Rightarrow> store fl m fName val')
                           | None \<Rightarrow> store fl m fName val))))
      | KInt \<Rightarrow>
          (case ParseInt src (Bits t) of
             Inl err \<Rightarrow> (Some (NumError ''ParseInt'' src err), dst)
           | Inr i \<Rightarrow> assign fl ''reflect.Value.SetInt'' dst (VInt i))
      | KUint \<Rightarrow>
          (case ParseUint src (Bits t) of
             Inl err \<Rightarrow> (Some (NumError ''ParseUint'' src err), dst)
           | Inr i \<Rightarrow> assign fl ''reflect.Value.SetUint'' dst (VUint i))
      | KFloat \<Rightarrow>
          (case ParseFloat ext src (Bits t) of
             Inl err \<Rightarrow> (Some (NumError ''ParseFloat'' src err), dst)
           | Inr i \<Rightarrow> assign fl ''reflect.Value.SetFloat'' dst (VFloat i))
      | KBool \<Rightarrow>
          (case ParseBool (TrimSpace src) of
             Inl err \<Rightarrow> (Some (NumError ''ParseBool'' (TrimSpace src) err), dst)
           | Inr i \<Rightarrow> assign fl ''reflect.Value.SetBool'' dst (VBool i))
      | KString \<Rightarrow> assign fl ''reflect.Value.SetString'' dst (VString (TrimSpace src))
      | KSlice \<Rightarrow>
          (if Elem t = TUint 8 then
             (case hexDecodeString src of
                Some buf \<Rightarrow> assign fl ''reflect.Value.SetBytes'' dst (VSlice (Some (map VUint buf)))
              | None \<Rightarrow>
                  assign fl ''reflect.Value.SetBytes'' dst
                         (VSlice (Some (map (\<lambda>c. VUint (of_char c)) src))))
           else (None, dst))
      | _ \<Rightarrow> (Some (ErrNoUnmarshalMethod typ0), dst))"

text \<open>
  \<open>setValue(dst, src, fName)\<close>; \<open>fl\<close> are the flags of \<open>dst\<close>.  A nil pointer is set
  to a new value first, and what a pointer points to is addressable.
\<close>

definition setValue :: "extern \<Rightarrow> flag \<Rightarrow> gtype \<Rightarrow> gvalue \<Rightarrow> string \<Rightarrow> string \<Rightarrow> error option \<times> gvalue" where
  "setValue ext fl typ0 dst0 src fName =
     (if src = [] then (None, dst0)
      else if Kind typ0 = KPtr then
        (case (if IsNil dst0 then mustBeAssignable fl ''reflect.Value.Set'' else None) of
           Some p \<Rightarrow> (Some p, dst0)
         | None \<Rightarrow>
             (case setKind ext (elemFlag fl) typ0 (Elem typ0) (pointee typ0 dst0) src fName of
                (err, dst') \<Rightarrow> (err, VPtr (Some dst'))))
      else setKind ext fl typ0 typ0 dst0 src fName)"

text \<open>
  \<open>val.SetMapIndex(reflect.ValueOf(fName), reflect.ValueOf(tokens[i]))\<close> on a record
  that is a map: a string must be assignable to the key and element types, and the
  map must not be nil; \<open>reflect\<close> panics otherwise.
\<close>

definition SetMapIndex :: "gtype \<Rightarrow> gvalue \<Rightarrow> string \<Rightarrow> string \<Rightarrow> error + gvalue" where
  "SetMapIndex typ val fName tok =
     (if (Key typ \<noteq> TString \<and> Key typ \<noteq> TInterface) \<or> (Elem typ \<noteq> TString \<and> Elem typ \<noteq> TInterface)
      then Inl (Panic ''reflect.Value.SetMapIndex: value of type string is not assignable'')
      else case val of
             VMap (Some m) \<Rightarrow>
               Inr (VMap (Some (mapStore m fName
                      (if Elem typ = TInterface then VInterface (Some (TString, VString tok))
                       else VString tok))))
           | _ \<Rightarrow> Inl (Panic ''assignment to entry in nil map''))"

text \<open>
  An error of a column becomes the \<open>DecodeError\<close> of that column; a panic is no
  error value and passes.
\<close>

definition fieldError :: "Decoder \<Rightarrow> nat \<Rightarrow> string \<Rightarrow> error \<Rightarrow> error" where
  "fieldError d i fName err =
     (case err of
        Panic p \<Rightarrow> Panic p
      | _ \<Rightarrow> DecodeError (lineNo d) (i + 1) fName (Some err))"

text \<open>
  The body of the loop \<open>for i, fName := range d.headerKeys\<close> of \<open>unmarshal\<close>, for
  column \<open>i\<close> with its header name and its token, on the record so far.  The result
  is the error the body returns with, if it does, and the record as the body leaves
  it; \<open>rfl\<close> are the flags of the record.  A field that is read-only has no
  \<open>CanInterface\<close>, so its \<open>UnmarshalText\<close> is not looked up.
\<close>

definition mapField :: "extern \<Rightarrow> Decoder \<Rightarrow> flag \<Rightarrow> gtype \<Rightarrow> nat \<Rightarrow> string \<Rightarrow> string \<Rightarrow> gvalue
                          \<Rightarrow> error option \<times> gvalue" where
  "mapField ext d rfl typ i fName tok0 val =
     (let tok1 = (if trim d then TrimSpace tok0 else tok0);
          tok = ReplaceQuotes tok1
      in if Kind typ = KMap then
           (case SetMapIndex typ val fName tok of
              Inl p \<Rightarrow> (Some p, val)
            | Inr val' \<Rightarrow> (None, val'))
         else
           (case findStructField rfl typ val fName of
              Inl p \<Rightarrow> (Some p, val)
            | Inr (None, val1) \<Rightarrow>
                if skipUnknown d then (None, val1)
                else (Some (DecodeError (lineNo d) (i + 1) fName (Some ErrFieldNotFound)), val1)
            | Inr (Some finfo, val1) \<Rightarrow>
                (let ft = fieldType 0 typ (idx finfo);
                     f = fieldGet 0 typ val1 (idx finfo);
                     fl = valueFlag 0 rfl typ (idx finfo);
                     (err, f') =
                       (case (if CanInterface fl then UnmarshalText ext ft else None) of
                          Some mth \<Rightarrow> mth tok f
                        | None \<Rightarrow>
                            (case (if CanAddr fl \<and> CanInterface fl
                                   then UnmarshalText ext (TPtr ft) else None) of
                               Some mth \<Rightarrow> viaAddr (mth tok) f
                             | None \<Rightarrow> setValue ext fl ft f tok fName));
                     val2 = fieldSet 0 typ val1 (idx finfo) f'
                 in case err of
                      Some e \<Rightarrow> (Some (fieldError d i fName e), val2)
                    | None \<Rightarrow> (None, val2))))"

text \<open>
  The loop itself, from column \<open>i\<close> on: the header names and the tokens still to
  map.  It stops at the first error.
\<close>

fun mapFields :: "extern \<Rightarrow> Decoder \<Rightarrow> flag \<Rightarrow> gtype \<Rightarrow> nat \<Rightarrow> string list \<Rightarrow> string list \<Rightarrow> gvalue
                    \<Rightarrow> error option \<times> gvalue" where
  "mapFields ext d rfl typ i [] toks val = (None, val)"
| "mapFields ext d rfl typ i (fName # keys) [] val = (Some (Panic ''index out of range''), val)"
| "mapFields ext d rfl typ i (fName # keys) (tok0 # toks) val =
     (case mapField ext d rfl typ i fName tok0 val of
        (Some err, val') \<Rightarrow> (Some err, val')
      | (None, val') \<Rightarrow> mapFields ext d rfl typ (Suc i) keys toks val')"

text \<open>
  The flags of the record \<open>derefValue\<close> reaches: what a pointer points to is
  addressable, and the argument itself is addressable when it can be set.
\<close>

definition recordFlag :: "wrapper \<Rightarrow> bool \<Rightarrow> flag" where
  "recordFlag w canSet = \<lparr> flagAddr = (w \<noteq> Direct \<or> canSet), flagRO = False \<rparr>"

text \<open>
  \<open>unmarshal\<close>; \<open>canSet\<close> says whether the argument \<open>val\<close> can be set.  The result
  is the error, if any, and the argument after the call.  The \<open>Unmarshaler\<close> of the
  pointer type is looked up when the record is addressable (\<open>val.CanAddr()\<close>).
\<close>

definition unmarshal :: "extern \<Rightarrow> Decoder \<Rightarrow> bool \<Rightarrow> gtype \<Rightarrow> gvalue \<Rightarrow> string \<Rightarrow> error option \<times> gvalue" where
  "unmarshal ext d canSet typ0 val0 line =
     (let tokens = tokenize d line in
      if length tokens \<noteq> length (headerKeys d) then
        (Some (DecodeError (lineNo d) 0 ''number of fields does not match header'' None), val0)
      else
        (case derefValue canSet typ0 val0 of
           Inl p \<Rightarrow> (Some p, val0)
         | Inr (w, typ, val) \<Rightarrow>
             (case (case UnmarshalCSV ext typ of
                      Some mth \<Rightarrow> mth (headerKeys d) tokens val
                    | None \<Rightarrow>
                        (case (if CanAddr (recordFlag w canSet)
                               then UnmarshalCSV ext (TPtr typ) else None) of
                           Some mth \<Rightarrow> viaAddr (mth (headerKeys d) tokens) val
                         | None \<Rightarrow>
                             mapFields ext d (recordFlag w canSet) typ 0 (headerKeys d) tokens val))
              of (err, val') \<Rightarrow> (err, rewrap w val'))))"

text \<open>
  \<open>DecodeRecord(v, line)\<close>; \<open>v\<close> is an \<open>interface{}\<close>: nil, or a value with its type.
  A value that came out of an interface is not settable.
\<close>

type_synonym interface = "(gtype \<times> gvalue) option"

definition ValueKind :: "interface \<Rightarrow> kind" where
  "ValueKind v = (case v of None \<Rightarrow> KInvalid | Some (t, x) \<Rightarrow> Kind t)"

definition DecodeRecord :: "extern \<Rightarrow> Decoder \<Rightarrow> interface \<Rightarrow> string \<Rightarrow> error option \<times> interface" where
  "DecodeRecord ext d v line =
     (case v of
        None \<Rightarrow> (Some ErrNonPointerDecodeRecord, v)
      | Some (t, x) \<Rightarrow>
          if Kind t \<noteq> KPtr then (Some ErrNonPointerDecodeRecord, v)
          else (case unmarshal ext d False t x line of (err, x') \<Rightarrow> (err, Some (t, x'))))"

definition DecodeHeader :: "Decoder \<Rightarrow> string \<Rightarrow> string list option \<times> error option \<times> Decoder" where
  "DecodeHeader d line =
     (let d1 = d\<lparr>headerKeys := Split line (sep d)\<rparr> in
      if length (headerKeys d1) = 0 then (None, Some ErrEmptyHeader, d1)
      else let d2 = (if trim d1 then d1\<lparr>headerKeys := map TrimSpace (headerKeys d1)\<rparr> else d1)
           in (Some (headerKeys d2), None, d2))"

text \<open>
  \<open>bufio.Scanner\<close> with \<open>ScanLines\<close> over the bytes of the input.  One \<open>Scan()\<close>
  gives the next line without its line feed and without one carriage return before
  it, and the input after it; at the end of the input it gives nothing; and it stops
  with \<open>ErrTooLong\<close> at a line that does not fit the buffer of \<open>MaxScanTokenSize\<close>
  bytes.
\<close>

definition MaxScanTokenSize :: nat where "MaxScanTokenSize = 64 * 1024"

datatype scanned = Token string string | AtEOF | TooLong

definition dropCR :: "string \<Rightarrow> string" where
  "dropCR data = (if data \<noteq> [] \<and> last data = CHR 0x0D then butlast data else data)"

definition Scan :: "string \<Rightarrow> scanned" where
  "Scan inp =
     (if inp = [] then AtEOF
      else let l = takeWhile (\<lambda>c. c \<noteq> CHR 0x0A) inp;
               r = dropWhile (\<lambda>c. c \<noteq> CHR 0x0A) inp
           in if length l \<ge> MaxScanTokenSize then TooLong
              else Token (dropCR l) (drop 1 r))"

lemma Scan_shorter: "Scan inp = Token line rest \<Longrightarrow> length rest < length inp"
proof -
  assume a: "Scan inp = Token line rest"
  then have ne: "inp \<noteq> []" by (auto simp: Scan_def)
  from a have r: "rest = drop 1 (dropWhile (\<lambda>c. c \<noteq> CHR 0x0A) inp)"
    by (auto simp: Scan_def Let_def split: if_splits)
  show ?thesis
  proof (cases "dropWhile (\<lambda>c. c \<noteq> CHR 0x0A) inp")
    case Nil
    with r ne show ?thesis by simp
  next
    case (Cons c cs)
    have "length (dropWhile (\<lambda>c. c \<noteq> CHR 0x0A) inp) \<le> length inp"
      by (rule length_dropWhile_le)
    with Cons r show ?thesis by simp
  qed
qed

text \<open>\<open>ReadLine\<close>: the next line that is neither empty nor a comment; the empty string at the end.\<close>

function ReadLine :: "Decoder \<Rightarrow> string \<times> error option \<times> Decoder" where
  "ReadLine d =
     (case Scan (s d) of
        AtEOF \<Rightarrow> ([], None, d)
      | TooLong \<Rightarrow> ([], Some ErrReadFailed, d)
      | Token line rest \<Rightarrow>
          (let d1 = d\<lparr>s := rest, lineNo := lineNo d + 1\<rparr> in
           if length line = 0 then ReadLine d1
           else if HasPrefix line [comment d1] then ReadLine d1
           else (line, None, d1)))"
  by pat_completeness auto
termination
  by (relation "measure (\<lambda>d. length (s d))") (auto dest: Scan_shorter)

definition indirectType :: "gtype \<Rightarrow> gtype" where
  "indirectType typ = (if Kind typ = KPtr then Elem typ else typ)"

definition Append :: "gvalue \<Rightarrow> gvalue \<Rightarrow> gvalue" where
  "Append sl x = (case sl of VSlice (Some xs) \<Rightarrow> VSlice (Some (xs @ [x])) | _ \<Rightarrow> VSlice (Some [x]))"

lemma DecodeHeader_scanner: "s (snd (snd (DecodeHeader d line))) = s d"
  by (simp add: DecodeHeader_def Let_def)

text \<open>
  The loop \<open>for d.s.Scan()\<close> of \<open>Decode\<close>; \<open>et\<close> is the element type of the slice and
  \<open>val\<close> the slice so far.
\<close>

function decodeLines :: "extern \<Rightarrow> Decoder \<Rightarrow> gtype \<Rightarrow> gvalue \<Rightarrow> error option \<times> Decoder \<times> gvalue" where
  "decodeLines ext d et val =
     (case Scan (s d) of
        AtEOF \<Rightarrow> (None, d, val)
      | TooLong \<Rightarrow> (Some ErrReadFailed, d, val)
      | Token line rest \<Rightarrow>
          (let d1 = d\<lparr>s := rest, lineNo := lineNo d + 1\<rparr> in
           if length line = 0 then decodeLines ext d1 et val
           else if HasPrefix line [comment d1] then decodeLines ext d1 et val
           else if length (headerKeys d1) = 0 \<and> readHeader d1 then
             (case fst (snd (DecodeHeader d1 line)) of
                Some err \<Rightarrow> (Some err, snd (snd (DecodeHeader d1 line)), val)
              | None \<Rightarrow> decodeLines ext (snd (snd (DecodeHeader d1 line))) et val)
           else
             (case unmarshal ext d1 True et (zero et) line of
                (Some err, e) \<Rightarrow> (Some err, d1, val)
              | (None, e) \<Rightarrow> decodeLines ext d1 et (Append val e))))"
  by pat_completeness auto
termination
  by (relation "measure (\<lambda>(ext, d, et, val). length (s d))")
     (auto dest: Scan_shorter simp: DecodeHeader_scanner)

text \<open>
  \<open>Decode(v)\<close>.  The result is the error, the decoder after the call, and \<open>v\<close> after
  the call (the slice \<open>v\<close> points to grows).  \<open>reflect.Indirect\<close> of a nil pointer
  is the zero \<open>Value\<close>, of kind \<open>Invalid\<close>.
\<close>

definition Indirect :: "interface \<Rightarrow> interface" where
  "Indirect v =
     (case v of
        None \<Rightarrow> None
      | Some (pt, p) \<Rightarrow>
          if Kind pt \<noteq> KPtr then v
          else (case p of VPtr (Some x) \<Rightarrow> Some (Elem pt, x) | _ \<Rightarrow> None))"

definition Decode :: "extern \<Rightarrow> Decoder \<Rightarrow> interface \<Rightarrow> error option \<times> Decoder \<times> interface" where
  "Decode ext d v =
     (if ValueKind v \<noteq> KPtr then (Some ErrNonPointerUnmarshal, d, v)
      else if ValueKind (Indirect v) \<noteq> KSlice then (Some ErrNonSliceUnmarshal, d, v)
      else
        (case (v, Indirect v) of
           (Some (pt, p), Some (st, val)) \<Rightarrow>
             (case (if \<not> readHeader d then
                      (case getTypeInfo (indirectType (Elem st)) of
                         Inl err \<Rightarrow> Inl (ErrCsv err)
                       | Inr tinfo \<Rightarrow>
                           Inr (d\<lparr>headerKeys := headerKeys d @
                                  map name (filter (\<lambda>finfo. flags finfo AND fAny = 0) tinfo)\<rparr>))
                    else Inr d) of
                Inl err \<Rightarrow> (Some err, d, v)
              | Inr d1 \<Rightarrow>
                  (case decodeLines ext d1 (Elem st) val of
                     (err, d2, val') \<Rightarrow> (err, d2, Some (pt, VPtr (Some val')))))
         | _ \<Rightarrow> (Some ErrNonSliceUnmarshal, d, v)))"

definition Unmarshal :: "extern \<Rightarrow> string \<Rightarrow> interface \<Rightarrow> error option \<times> interface" where
  "Unmarshal ext data v = (case Decode ext (NewDecoder data) v of (err, d, v') \<Rightarrow> (err, v'))"

section \<open>The encoder\<close>

text \<open>
  The encoder.  \<open>w\<close> is the sink: the bytes written so far (a \<open>bytes.Buffer\<close>, whose
  \<open>Write\<close> never fails).
\<close>

record Encoder =
  w :: string
  e_sep :: string
  e_trim :: bool
  writeHeader :: bool
  e_headerKeys :: "string list"

definition NewEncoder :: "string \<Rightarrow> Encoder" where
  "NewEncoder buf = \<lparr> w = buf, e_sep = [Separator], e_trim = True, writeHeader = True,
                      e_headerKeys = [] \<rparr>"

definition Encoder_Header :: "Encoder \<Rightarrow> bool \<Rightarrow> Encoder" where
  "Encoder_Header e h = e\<lparr>writeHeader := h\<rparr>"

definition Encoder_Separator :: "Encoder \<Rightarrow> char \<Rightarrow> Encoder" where
  "Encoder_Separator e r = e\<lparr>e_sep := [r]\<rparr>"

definition Encoder_Trim :: "Encoder \<Rightarrow> bool \<Rightarrow> Encoder" where
  "Encoder_Trim e t = e\<lparr>e_trim := t\<rparr>"

definition Encoder_output :: "Encoder \<Rightarrow> string list \<Rightarrow> error option \<times> Encoder" where
  "Encoder_output e flds = (None, e\<lparr>w := w e @ Join flds (e_sep e) @ [CHR 0x0A]\<rparr>)"

text \<open>
  \<open>buildHeader(fields, reflect.ValueOf(v))\<close>.  \<open>Value.Type\<close> panics on the zero
  \<open>Value\<close>, which is what \<open>reflect.ValueOf(nil)\<close> is.
\<close>

definition buildHeader :: "Encoder \<Rightarrow> string list \<Rightarrow> interface \<Rightarrow> error option \<times> Encoder" where
  "buildHeader e flds v =
     (if length (e_headerKeys e) > 0 then (None, e)
      else if length flds > 0 then (None, e\<lparr>e_headerKeys := flds\<rparr>)
      else (case (if ValueKind v = KPtr \<and> Indirect v \<noteq> None then Indirect v else v) of
              None \<Rightarrow> (Some (Panic ''reflect: call of reflect.Value.Type on zero Value''), e)
            | Some (t, x) \<Rightarrow>
                (case getTypeInfo t of
                   Inl err \<Rightarrow> (Some (ErrCsv err), e)
                 | Inr tinfo \<Rightarrow> (None, e\<lparr>e_headerKeys := map name tinfo\<rparr>))))"

definition EncodeHeader :: "Encoder \<Rightarrow> string list \<Rightarrow> interface \<Rightarrow> error option \<times> Encoder" where
  "EncodeHeader e flds v =
     (case buildHeader e flds v of
        (Some err, e1) \<Rightarrow> (Some err, e1)
      | (None, e1) \<Rightarrow> if \<not> writeHeader e1 then (None, e1) else Encoder_output e1 (e_headerKeys e1))"

text \<open>The bytes of a \<open>[]byte\<close> or \<open>[N]byte\<close> value, as a string.\<close>

definition bytesOf :: "gvalue \<Rightarrow> string" where
  "bytesOf v =
     map (\<lambda>b. case b of VUint n \<Rightarrow> char_of n | _ \<Rightarrow> CHR 0x00)
         (case v of VArray bs \<Rightarrow> bs | VSlice (Some bs) \<Rightarrow> bs | _ \<Rightarrow> [])"

text \<open>
  \<open>marshalSimple(typ, val)\<close>, on a value with the flags \<open>fl\<close>; the string and the
  bytes it returns are one result here, since every caller turns the bytes into a
  string.  \<open>val.Interface()\<close> panics on a read-only value, and so does the
  \<open>reflect.Copy\<close> that reads an array which is not addressable.
\<close>

definition marshalSimple :: "extern \<Rightarrow> flag \<Rightarrow> gtype \<Rightarrow> gvalue \<Rightarrow> error + string" where
  "marshalSimple ext fl typ val =
     (case Stringer ext typ of
        Some mth \<Rightarrow>
          if flagRO fl
          then Inl (Panic ''reflect.Value.Interface: cannot return value obtained from unexported field or method'')
          else Inr (mth val)
      | None \<Rightarrow>
          (case (Kind typ, val) of
             (KInt, VInt i) \<Rightarrow> Inr (FormatInt i)
           | (KUint, VUint n) \<Rightarrow> Inr (FormatUint n)
           | (KFloat, VFloat f) \<Rightarrow> Inr (FormatFloat ext f (Bits typ))
           | (KString, VString str) \<Rightarrow> Inr str
           | (KBool, VBool b) \<Rightarrow> Inr (FormatBool b)
           | (KArray, _) \<Rightarrow>
               if Elem typ \<noteq> TUint 8 then Inl (ErrNoMarshalMethod typ)
               else if CanAddr fl then Inr (bytesOf val)
               else (case mustBeExported fl ''reflect.Copy'' of
                       Some p \<Rightarrow> Inl p
                     | None \<Rightarrow> Inr (bytesOf val))
           | (KSlice, _) \<Rightarrow>
               if Elem typ \<noteq> TUint 8 then Inl (ErrNoMarshalMethod typ) else Inr (bytesOf val)
           | _ \<Rightarrow> Inl (ErrNoMarshalMethod typ)))"

text \<open>
  \<open>Encoder.findStructField\<close> is the same code as the decoder's.  The struct it is
  called on is addressable only when the record was passed by pointer.
\<close>

definition Encoder_findStructField :: "flag \<Rightarrow> gtype \<Rightarrow> gvalue \<Rightarrow> string \<Rightarrow> error + (fieldInfo option \<times> gvalue)" where
  "Encoder_findStructField fl typ val nm = findStructField fl typ val nm"

text \<open>
  The loop \<open>for i, fName := range e.headerKeys\<close> of \<open>marshal\<close>: the tokens of the
  header names given, or the first error; \<open>canAddr\<close> says whether the record is
  addressable.  A field that is read-only has no \<open>CanInterface\<close>, so its
  \<open>MarshalText\<close> is not looked up.
\<close>

fun marshalFields :: "extern \<Rightarrow> Encoder \<Rightarrow> bool \<Rightarrow> gtype \<Rightarrow> gvalue \<Rightarrow> string list \<Rightarrow> error + string list" where
  "marshalFields ext e canAddr typ val [] = Inr []"
| "marshalFields ext e canAddr typ val (fName # keys) =
     (case Encoder_findStructField \<lparr> flagAddr = canAddr, flagRO = False \<rparr> typ val fName of
        Inl p \<Rightarrow> Inl p
      | Inr (None, val1) \<Rightarrow> map_sum id (\<lambda>toks. [] # toks) (marshalFields ext e canAddr typ val1 keys)
      | Inr (Some finfo, val1) \<Rightarrow>
          (let ft = fieldType 0 typ (idx finfo);
               f = fieldGet 0 typ val1 (idx finfo);
               fl = valueFlag 0 \<lparr> flagAddr = canAddr, flagRO = False \<rparr> typ (idx finfo);
               rest = marshalFields ext e canAddr typ val1 keys
           in if flags finfo AND fElement = 0 then map_sum id (\<lambda>toks. [] # toks) rest
              else if (Kind ft = KInterface \<or> Kind ft = KPtr) \<and> IsNil f
                then map_sum id (\<lambda>toks. [] # toks) rest
              else
                (case (if CanInterface fl then MarshalText ext ft else None) of
                   Some mth \<Rightarrow>
                     (case mth f of
                        Inl err \<Rightarrow> Inl err
                      | Inr b \<Rightarrow> map_sum id (\<lambda>toks. b # toks) rest)
                 | None \<Rightarrow>
                     (case (if CanAddr fl \<and> CanInterface fl then
                              (case MarshalText ext (TPtr ft) of
                                 Some mth \<Rightarrow> map_sum id (\<lambda>b. ()) (mth (VPtr (Some f)))
                               | None \<Rightarrow> Inr ())
                            else Inr ()) of
                        Inl err \<Rightarrow> Inl err
                      | Inr u \<Rightarrow>
                          (case marshalSimple ext fl ft f of
                             Inl err \<Rightarrow> Inl err
                           | Inr str \<Rightarrow>
                               map_sum id (\<lambda>toks. (if e_trim e then TrimSpace str else str) # toks) rest)))))"

text \<open>
  The loop of \<open>marshal\<close> for a record that is a slice as long as the header: one token
  for each element.  \<open>Value.IsNil\<close> panics on a value that cannot be nil.  An element
  of a slice is addressable, what an interface holds is not, and what a pointer
  points to is.
\<close>

definition marshalElem :: "extern \<Rightarrow> gtype \<Rightarrow> gvalue \<Rightarrow> error + string" where
  "marshalElem ext et f =
     (if Kind et \<notin> {KInterface, KPtr, KMap, KSlice, KChan, KFunc}
      then Inl (Panic ''reflect: call of reflect.Value.IsNil on a value that cannot be nil'')
      else if IsNil f \<or> f = VOpaque then Inr []
      else
        (case (if Kind et = KInterface
               then (case f of VInterface (Some (t, x)) \<Rightarrow> (t, x, False) | _ \<Rightarrow> (et, f, True))
               else (et, f, True)) of
           (t1, f1, a1) \<Rightarrow>
             (case (if Kind t1 = KPtr \<and> \<not> IsNil f1 then (Elem t1, pointee t1 f1, True)
                    else (t1, f1, a1)) of
                (t2, f2, a2) \<Rightarrow> marshalSimple ext \<lparr> flagAddr = a2, flagRO = False \<rparr> t2 f2)))"

fun marshalElems :: "extern \<Rightarrow> gtype \<Rightarrow> gvalue list \<Rightarrow> error + string list" where
  "marshalElems ext et [] = Inr []"
| "marshalElems ext et (f # fs) =
     (case marshalElem ext et f of
        Inl err \<Rightarrow> Inl err
      | Inr tok \<Rightarrow> map_sum id (\<lambda>toks. tok # toks) (marshalElems ext et fs))"

definition sliceElems :: "gvalue \<Rightarrow> gvalue list" where
  "sliceElems v = (case v of VSlice (Some xs) \<Rightarrow> xs | _ \<Rightarrow> [])"

text \<open>
  \<open>marshal(reflect.ValueOf(v))\<close>.  The value of a record passed by pointer is
  addressable, that of a record passed by value is not; a nil pointer cannot be set
  here, and the zero \<open>Value\<close> of a nil \<open>v\<close> has no \<open>CanInterface\<close>.
\<close>

definition marshal :: "extern \<Rightarrow> Encoder \<Rightarrow> interface \<Rightarrow> error option \<times> Encoder" where
  "marshal ext e v =
     (case v of
        None \<Rightarrow> (Some (Panic ''reflect: call of reflect.Value.CanInterface on zero Value''), e)
      | Some (typ0, val0) \<Rightarrow>
          (case derefValue False typ0 val0 of
             Inl p \<Rightarrow> (Some p, e)
           | Inr (wr, typ1, val1) \<Rightarrow>
               (let canAddr = (wr \<noteq> Direct) in
                case MarshalCSV ext typ1 of
                  Some mth \<Rightarrow>
                    (case mth val1 of Inl err \<Rightarrow> (Some err, e) | Inr flds \<Rightarrow> Encoder_output e flds)
                | None \<Rightarrow>
                    (case (if canAddr then MarshalCSV ext (TPtr typ1) else None) of
                       Some mth \<Rightarrow>
                         (case mth (VPtr (Some val1)) of
                            Inl err \<Rightarrow> (Some err, e)
                          | Inr flds \<Rightarrow> Encoder_output e flds)
                     | None \<Rightarrow>
                         (case (if Kind typ1 = KPtr \<and> \<not> IsNil val1
                                then (Elem typ1, pointee typ1 val1, True)
                                else (typ1, val1, canAddr)) of
                            (typ, val, canAddr') \<Rightarrow>
                              (case (if Kind typ = KSlice
                                        \<and> length (sliceElems val) = length (e_headerKeys e)
                                     then marshalElems ext (Elem typ) (sliceElems val)
                                     else marshalFields ext e canAddr' typ val (e_headerKeys e)) of
                                 Inl err \<Rightarrow> (Some err, e)
                               | Inr tokens \<Rightarrow> Encoder_output e tokens))))))"

text \<open>\<open>fmt.Errorf("csv: %v", err)\<close> for an error; a panic is not an error value and passes.\<close>

definition csvError :: "error \<Rightarrow> error" where
  "csvError err = (case err of Panic p \<Rightarrow> Panic p | _ \<Rightarrow> ErrCsv err)"

definition EncodeRecord :: "extern \<Rightarrow> Encoder \<Rightarrow> interface \<Rightarrow> error option \<times> Encoder" where
  "EncodeRecord ext e v =
     (case (if length (e_headerKeys e) = 0 then EncodeHeader e [] v else (None, e)) of
        (Some err, e1) \<Rightarrow> (Some err, e1)
      | (None, e1) \<Rightarrow>
          (case marshal ext e1 v of
             (Some err, e2) \<Rightarrow> (Some (csvError err), e2)
           | (None, e2) \<Rightarrow> (None, e2)))"

text \<open>\<open>val.Index(i).Interface()\<close>: an element of a slice as an \<open>interface{}\<close>.\<close>

definition elemInterface :: "gtype \<Rightarrow> gvalue \<Rightarrow> interface" where
  "elemInterface et x =
     (if Kind et = KInterface then (case x of VInterface inner \<Rightarrow> inner | _ \<Rightarrow> None)
      else Some (et, x))"

fun encodeRecords :: "extern \<Rightarrow> Encoder \<Rightarrow> gtype \<Rightarrow> gvalue list \<Rightarrow> error option \<times> Encoder" where
  "encodeRecords ext e et [] = (None, e)"
| "encodeRecords ext e et (x # xs) =
     (case EncodeRecord ext e (elemInterface et x) of
        (Some err, e1) \<Rightarrow> (Some err, e1)
      | (None, e1) \<Rightarrow> encodeRecords ext e1 et xs)"

text \<open>
  \<open>Encode(v)\<close>.  \<open>val.Index(0)\<close> panics on a slice without elements.
\<close>

definition Encode :: "extern \<Rightarrow> Encoder \<Rightarrow> interface \<Rightarrow> error option \<times> Encoder" where
  "Encode ext e v =
     (case Indirect v of
        None \<Rightarrow> (None, e)
      | Some (st, val) \<Rightarrow>
          if Kind st \<noteq> KSlice then (Some (ErrNonSliceMarshal st), e)
          else (case sliceElems val of
                  [] \<Rightarrow> (Some (Panic ''reflect: slice index out of range''), e)
                | x # xs \<Rightarrow>
                    (case EncodeHeader e [] (elemInterface (Elem st) x) of
                       (Some err, e1) \<Rightarrow> (Some err, e1)
                     | (None, e1) \<Rightarrow> encodeRecords ext e1 (Elem st) (x # xs))))"

definition Marshal :: "extern \<Rightarrow> interface \<Rightarrow> error + string" where
  "Marshal ext v =
     (case Encode ext (NewEncoder []) v of
        (Some err, e) \<Rightarrow> Inl err
      | (None, e) \<Rightarrow> Inr (w e))"

section \<open>The types and values of the package's tests\<close>

text \<open>
  \<open>type A struct { String string `csv:"s"`; Bool bool `csv:"b"`; Int int64 `csv:"i"`;
  Float float64 `csv:"f"` }\<close> of the tests, and its values \<open>A1\<close>, \<open>A2\<close> and \<open>A3\<close>.
  In \<open>testExtern\<close> no type has methods, and the float conversions are given on
  \<open>23.45\<close> and \<open>24.56\<close>, the floats of these values.
\<close>

definition typeA :: gtype where
  "typeA = TStruct [StructField ''String'' [] False ''s'' TString,
                    StructField ''Bool'' [] False ''b'' TBool,
                    StructField ''Int'' [] False ''i'' (TInt 64),
                    StructField ''Float'' [] False ''f'' (TFloat 64)]"

definition float_23_45 :: "64 word" where
  "float_23_45 = 0x4037733333333333"

definition float_24_56 :: "64 word" where
  "float_24_56 = 0x40388F5C28F5C28F"

definition A1 :: gvalue where
  "A1 = VStruct [VString ''Hello'', VBool True, VInt 42, VFloat float_23_45]"

definition A2 :: gvalue where
  "A2 = VStruct [VString ''Hello World'', VBool False, VInt 43, VFloat float_24_56]"

definition A3 :: gvalue where
  "A3 = VStruct [VString ''   Hello   '', VBool True, VInt 42, VFloat float_23_45]"

definition testExtern :: extern where
  "testExtern =
     \<lparr> ParseFloat = (\<lambda>str bitSize. if str = ''23.45'' then Inr float_23_45
                                    else if str = ''24.56'' then Inr float_24_56
                                    else Inl ErrSyntax),
       FormatFloat = (\<lambda>f bitSize. if f = float_23_45 then ''23.45''
                                   else if f = float_24_56 then ''24.56'' else ''0''),
       UnmarshalCSV = (\<lambda>t. None), UnmarshalText = (\<lambda>t. None), MarshalCSV = (\<lambda>t. None),
       MarshalText = (\<lambda>t. None), Stringer = (\<lambda>t. None) \<rparr>"

text \<open>
  \<open>type B\<close> of the tests: the fields of \<open>A\<close> and the catch-all field
  \<open>Any map[string]string `csv:",any"`\<close>.
\<close>

definition typeB :: gtype where
  "typeB = TStruct [StructField ''String'' [] False ''s'' TString,
                    StructField ''Bool'' [] False ''b'' TBool,
                    StructField ''Int'' [] False ''i'' (TInt 64),
                    StructField ''Float'' [] False ''f'' (TFloat 64),
                    StructField ''Any'' [] False '',any'' (TMap TString TString)]"

text \<open>A struct with one string field, \<open>type S struct { S string `csv:"s"` }\<close>.\<close>

definition typeS :: gtype where
  "typeS = TStruct [StructField ''S'' [] False ''s'' TString]"

text \<open>
  Two record types with an unexported embedded field:
  \<open>type L struct { lower; Z bool }\<close> with \<open>type lower string\<close>, and
  \<open>type P struct { *inner; Z bool }\<close> with \<open>type inner struct { X string }\<close>.
\<close>

definition typeL :: gtype where
  "typeL = TStruct [StructField ''lower'' ''csv'' True [] TString,
                    StructField ''Z'' [] False [] TBool]"

definition typeP :: gtype where
  "typeP = TStruct [StructField ''inner'' ''csv'' True []
                      (TPtr (TStruct [StructField ''X'' [] False [] TString])),
                    StructField ''Z'' [] False [] TBool]"

text \<open>
  A decoder in the middle of \<open>CsvUnknownField\<close> of the tests: it has read the header
  line \<open>s,i,f,b,x\<close> and the line after it.
\<close>

definition decoderU :: Decoder where
  "decoderU = (NewDecoder [])\<lparr>lineNo := 2, headerKeys := [''s'', ''i'', ''f'', ''b'', ''x'']\<rparr>"


text \<open>A decoder that has read the header line \<open>s,b,i,f\<close>.\<close>

definition decoderA :: Decoder where
  "decoderA = (NewDecoder [])\<lparr>headerKeys := [''s'', ''b'', ''i'', ''f'']\<rparr>"

lemma DecodeHeader_decoderA:
  "DecodeHeader (NewDecoder []) ''s,b,i,f'' = (Some [''s'', ''b'', ''i'', ''f''], None, decoderA)"
  by code_simp

section \<open>The decoder: argument checks and the field count\<close>

text \<open>
  C10: when \<open>v\<close> is not a pointer, or is a pointer whose referent is not a slice (a nil
  pointer included), \<open>Decode\<close> returns an error at once: the decoder is as before, so
  nothing was read and no line was counted, and \<open>v\<close> is as before, so no record was
  decoded.  \<open>Unmarshal\<close>, which calls \<open>Decode\<close> on a new decoder, does the same.
\<close>

theorem Decode_rejects_non_slice_pointer:
  assumes "ValueKind v \<noteq> KPtr \<or> ValueKind (Indirect v) \<noteq> KSlice"
  shows "Decode ext d v =
           (Some (if ValueKind v \<noteq> KPtr then ErrNonPointerUnmarshal else ErrNonSliceUnmarshal), d, v)
         \<and> Unmarshal ext data v =
           (Some (if ValueKind v \<noteq> KPtr then ErrNonPointerUnmarshal else ErrNonSliceUnmarshal), v)"
  using assms by (auto simp: Decode_def Unmarshal_def)

theorem Decode_rejects_non_slice_pointer_witness:
  "Decode testExtern (NewDecoder ''s,b,i,f'') (Some (typeA, A1))
     = (Some ErrNonPointerUnmarshal, NewDecoder ''s,b,i,f'', Some (typeA, A1))
   \<and> Decode testExtern (NewDecoder ''s,b,i,f'') (Some (TPtr typeA, VPtr (Some A1)))
     = (Some ErrNonSliceUnmarshal, NewDecoder ''s,b,i,f'', Some (TPtr typeA, VPtr (Some A1)))"
proof -
  have k1: "ValueKind (Some (typeA, A1)) \<noteq> KPtr"
    by (simp add: ValueKind_def typeA_def)
  have k2: "ValueKind (Some (TPtr typeA, VPtr (Some A1))) = KPtr"
    by (simp add: ValueKind_def)
  have k3: "ValueKind (Indirect (Some (TPtr typeA, VPtr (Some A1)))) \<noteq> KSlice"
    by (simp add: ValueKind_def Indirect_def typeA_def)
  from k1 have h1: "ValueKind (Some (typeA, A1)) \<noteq> KPtr
      \<or> ValueKind (Indirect (Some (typeA, A1))) \<noteq> KSlice" by simp
  from k3 have h2: "ValueKind (Some (TPtr typeA, VPtr (Some A1))) \<noteq> KPtr
      \<or> ValueKind (Indirect (Some (TPtr typeA, VPtr (Some A1)))) \<noteq> KSlice" by simp
  show ?thesis
    using Decode_rejects_non_slice_pointer [OF h1, of testExtern "NewDecoder ''s,b,i,f''"]
          Decode_rejects_non_slice_pointer [OF h2, of testExtern "NewDecoder ''s,b,i,f''"]
          k1 k2
    by simp
qed

text \<open>
  C9: when the number of tokens of a line after the merge differs from the length of
  the header, \<open>unmarshal\<close> returns the \<open>DecodeError\<close> of field number 0 (with the
  line number of the decoder, the hint "number of fields does not match header" and
  no reason) and the record is the record passed in: no field was assigned.
  \<open>DecodeRecord\<close> on a pointer does the same.
\<close>

theorem unmarshal_field_count_mismatch:
  assumes "length (tokenize d line) \<noteq> length (headerKeys d)"
  shows "unmarshal ext d canSet typ val line =
           (Some (DecodeError (lineNo d) 0 ''number of fields does not match header'' None), val)
         \<and> DecodeRecord ext d (Some (TPtr typ, val)) line =
           (Some (DecodeError (lineNo d) 0 ''number of fields does not match header'' None),
            Some (TPtr typ, val))"
  using assms by (simp add: unmarshal_def DecodeRecord_def)

theorem unmarshal_field_count_mismatch_witness:
  "unmarshal testExtern decoderA True typeA (zero typeA) ''Hello,true''
     = (Some (DecodeError 0 0 ''number of fields does not match header'' None), zero typeA)
   \<and> unmarshal testExtern decoderA True typeA (zero typeA) ''Hello,true,42,23.45,more''
     = (Some (DecodeError 0 0 ''number of fields does not match header'' None), zero typeA)"
proof -
  have h1: "length (tokenize decoderA ''Hello,true'') \<noteq> length (headerKeys decoderA)"
    by code_simp
  have h2: "length (tokenize decoderA ''Hello,true,42,23.45,more'') \<noteq> length (headerKeys decoderA)"
    by code_simp
  have l: "lineNo decoderA = 0"
    by code_simp
  show ?thesis
    using unmarshal_field_count_mismatch [OF h1, of testExtern True typeA "zero typeA"]
          unmarshal_field_count_mismatch [OF h2, of testExtern True typeA "zero typeA"] l
    by simp
qed

section \<open>The tokenizer\<close>

lemma tokenize_split_quoted:
  "tokenize (NewDecoder []) [CHR 0x22, CHR ''a'', CHR '','', CHR ''b'', CHR 0x22] = [''a,b'']"
  by code_simp

text \<open>
  C4: the claim is that a quoted span becomes one token without its two quotes, so
  that the token of two double quotes becomes the empty string.  In the code the
  case for a token that begins and ends with a quote appends \<open>v[1:len(v)]\<close>, which
  drops the opening quote only: on the line \<open>x,"",y\<close> the second token is one double
  quote, not the empty string (and a line that is \<open>"ab"\<close> gives the token \<open>ab"\<close>).
\<close>

theorem tokenize_keeps_closing_quote:
  "tokenize (NewDecoder []) [CHR ''x'', CHR '','', CHR 0x22, CHR 0x22, CHR '','', CHR ''y'']
     = [''x'', [CHR 0x22], ''y'']
   \<and> tokenize (NewDecoder []) [CHR 0x22, CHR ''a'', CHR ''b'', CHR 0x22] = [[CHR ''a'', CHR ''b'', CHR 0x22]]"
  by code_simp

section \<open>Decoding one record\<close>

lemma Decode_without_header_example:
  "Decode testExtern (Decoder_Header (NewDecoder ''Hello,true,42,23.45'') False)
          (Some (TPtr (TSlice typeA), VPtr (Some (VSlice (Some [])))))
     = (None,
        (Decoder_Header (NewDecoder []) False)\<lparr>lineNo := 1, headerKeys := [''s'', ''b'', ''i'', ''f'']\<rparr>,
        Some (TPtr (TSlice typeA), VPtr (Some (VSlice (Some [A1])))))"
  by code_simp

text \<open>
  C5: the claim is that \<open>DecodeRecord\<close> on a decoder without a header derives the
  header from the type of the record, as \<open>Decode\<close> does for a decoder that expects
  no header line (see \<open>Decode_without_header_example\<close>).  \<open>DecodeRecord\<close> only calls
  \<open>unmarshal\<close>, which builds no header: on the decoder \<open>NewDecoder(r).Header(false)\<close>
  the line \<open>Hello,true,42,23.45\<close> and a pointer to a zero \<open>A\<close> give the error of a
  field count that does not match the (empty) header, and the record stays zero.
\<close>

theorem DecodeRecord_derives_no_header:
  "DecodeRecord testExtern (Decoder_Header (NewDecoder []) False)
                (Some (TPtr typeA, VPtr (Some (zero typeA)))) ''Hello,true,42,23.45''
     = (Some (DecodeError 0 0 ''number of fields does not match header'' None),
        Some (TPtr typeA, VPtr (Some (zero typeA))))"
  by code_simp

text \<open>
  C3: the claim is that without trimming a string field receives the token as it
  stands.  \<open>setValue\<close> assigns \<open>strings.TrimSpace(src)\<close> to a string field whatever
  the decoder's \<open>trim\<close> is: on a decoder with \<open>Trim(false)\<close> and the header
  \<open>s,b,i,f\<close>, the line whose first token is \<open>Hello\<close> between two blanks on each side
  gives the field the value \<open>Hello\<close>.
\<close>

theorem unmarshal_trims_string_without_trim:
  "trim (Decoder_Trim decoderA False) = False
   \<and> unmarshal testExtern (Decoder_Trim decoderA False) True typeA (zero typeA)
                 ''  Hello  ,true,42,23.45''
       = (None, VStruct [VString ''Hello'', VBool True, VInt 42, VFloat float_23_45])"
  by code_simp

lemma setValue_string:
  "src \<noteq> [] \<Longrightarrow> CanSet fl \<Longrightarrow>
   setValue ext fl TString dst src fName = (None, VString (TrimSpace src))"
  by (simp add: setValue_def setKind_def assign_def mustBeAssignable_def CanSet_def)

lemma DecodeHeader_no_trim:
  "\<not> trim d \<Longrightarrow> fst (DecodeHeader d line) = Some (Split line (sep d))"
  by (cases line) (auto simp: DecodeHeader_def Let_def split: list.splits)

section \<open>The value converter\<close>

lemma setValue_unsupported_kind:
  assumes "src \<noteq> []"
    and "Kind t = KArray \<or> Kind t = KStruct \<or> Kind t = KInterface \<or> Kind t = KChan
         \<or> Kind t = KFunc \<or> Kind t = KComplex \<or> Kind t = KInvalid"
  shows "setValue ext fl t dst src fName = (Some (ErrNoUnmarshalMethod t), dst)"
  using assms by (auto simp: setValue_def setKind_def)

text \<open>
  C7: the claim is that a non-empty token for a field of a kind that is not supported
  is an error, a slice of elements other than bytes included.  For the other kinds
  this is so (\<open>setValue_unsupported_kind\<close>), but the case \<open>reflect.Slice\<close> of
  \<open>setValue\<close> has no branch for an element type other than \<open>uint8\<close>: the call returns
  no error and leaves the slice as it was, whatever the flags of the field are.
\<close>

theorem setValue_slice_of_non_bytes:
  assumes "src \<noteq> []" and "et \<noteq> TUint 8"
  shows "setValue ext fl (TSlice et) dst src fName = (None, dst)"
  using assms by (simp add: setValue_def setKind_def)

theorem setValue_slice_of_non_bytes_witness:
  "setValue testExtern settable (TSlice (TInt 64)) (VSlice None) ''1'' ''x'' = (None, VSlice None)"
proof -
  have h1: "''1'' \<noteq> []" by simp
  have h2: "TInt 64 \<noteq> TUint 8" by simp
  show ?thesis
    using setValue_slice_of_non_bytes [OF h1 h2, of testExtern settable "VSlice None" "''x''"] by simp
qed

section \<open>The encoder: the header and the empty slice\<close>

lemma getTypeInfo_Struct: "getTypeInfo typ = Inr tinfo \<Longrightarrow> Kind typ = KStruct"
  by (cases "Kind typ = KStruct") simp_all

lemma Decode_implicit_header_typeB:
  "headerKeys (fst (snd (Decode testExtern (Decoder_Header (NewDecoder []) False)
                           (Some (TPtr (TSlice typeB), VPtr (Some (VSlice None)))))))
     = [''s'', ''b'', ''i'', ''f'']"
  by code_simp



lemma structFieldInfo_name: "name (structFieldInfo i f) = fieldName f"
  by (simp add: structFieldInfo_def fieldName_def Let_def split: prod.splits)




text \<open>
  \<open>buildHeader\<close> keeps a header the encoder has, takes the names it is given, and
  fails for a sample value whose type has no descriptor.
\<close>

lemma buildHeader_given:
  "e_headerKeys e \<noteq> [] \<Longrightarrow> buildHeader e flds v = (None, e)"
  "e_headerKeys e = [] \<Longrightarrow> flds \<noteq> [] \<Longrightarrow> buildHeader e flds v = (None, e\<lparr>e_headerKeys := flds\<rparr>)"
  by (simp_all add: buildHeader_def)

lemma buildHeader_without_descriptor:
  assumes "e_headerKeys e = []" and "Kind t \<noteq> KPtr" and "getTypeInfo t = Inl err"
  shows "buildHeader e [] (Some (t, x)) = (Some (ErrCsv err), e)"
  using assms by (simp add: buildHeader_def ValueKind_def)




text \<open>
  C2: the claim is that \<open>Encode\<close> of an empty slice returns without an error and
  writes nothing.  \<open>Encode\<close> takes \<open>val.Index(0)\<close> for the header before it looks at
  the length, so on a slice without elements (empty or nil, of any element type, in
  any configuration of the encoder) the call panics; nothing is written, but the
  call does not return.
\<close>

theorem Encode_empty_slice_panics:
  "Encode ext e (Some (TSlice et, VSlice (Some [])))
     = (Some (Panic ''reflect: slice index out of range''), e)
   \<and> Encode ext e (Some (TSlice et, VSlice None))
     = (Some (Panic ''reflect: slice index out of range''), e)
   \<and> Marshal ext (Some (TSlice et, VSlice (Some [])))
     = Inl (Panic ''reflect: slice index out of range'')"
  by (simp add: Encode_def Marshal_def Indirect_def sliceElems_def)

section \<open>Header names that match no field\<close>

lemma pickField_unknown:
  "\<forall>fi\<in>set tinfo. \<not> (flags fi AND fAny > 0) \<Longrightarrow> k \<notin> name ` set tinfo
   \<Longrightarrow> pickField tinfo i k a = (None, a)"
  by (induction tinfo arbitrary: i) (auto simp: Let_def)

lemma findStructField_unknown:
  assumes "getTypeInfo typ = Inr tinfo"
    and "\<forall>fi\<in>set tinfo. \<not> (flags fi AND fAny > 0)" and "k \<notin> name ` set tinfo"
  shows "findStructField fl typ val k = Inr (None, val)"
  using assms by (simp add: findStructField_def pickField_unknown)

lemma mapField_unknown:
  assumes "getTypeInfo typ = Inr tinfo"
    and "\<forall>fi\<in>set tinfo. \<not> (flags fi AND fAny > 0)" and "k \<notin> name ` set tinfo"
  shows "mapField ext d fl typ i k t val =
           (if skipUnknown d then (None, val)
            else (Some (DecodeError (lineNo d) (i + 1) k (Some ErrFieldNotFound)), val))"
  using assms getTypeInfo_Struct [OF assms(1)]
  by (simp add: mapField_def findStructField_unknown Let_def)

lemma mapFields_append:
  "length ts1 = length ks1 \<Longrightarrow>
   mapFields ext d fl typ i (ks1 @ ks) (ts1 @ ts) val =
     (case mapFields ext d fl typ i ks1 ts1 val of
        (Some e, v) \<Rightarrow> (Some e, v)
      | (None, v) \<Rightarrow> mapFields ext d fl typ (i + length ks1) ks ts v)"
proof (induction ks1 arbitrary: ts1 i val)
  case Nil
  then show ?case by simp
next
  case (Cons k ks1)
  then obtain t ts1' where ts1: "ts1 = t # ts1'" and len: "length ts1' = length ks1"
    by (cases ts1) auto
  show ?case
  proof (cases "mapField ext d fl typ i k t val")
    case (Pair err v)
    then show ?thesis using Cons.IH [OF len] ts1
      by (cases err) (auto split: prod.splits option.splits)
  qed
qed

text \<open>
  The number of a column is used for the error of that column only: the record a
  column leaves, and whether it fails, do not depend on it.
\<close>

lemma mapField_index:
  "snd (mapField ext d fl typ i k t val) = snd (mapField ext d fl typ j k t val)
   \<and> (fst (mapField ext d fl typ i k t val) = None \<longleftrightarrow> fst (mapField ext d fl typ j k t val) = None)"
  by (auto simp: mapField_def Let_def split: sum.splits prod.splits option.splits)

text \<open>
  What a column fails with is the \<open>DecodeError\<close> of the line and the column, or a
  panic of \<open>reflect\<close>.
\<close>

lemma mustBeAssignable_Panic: "mustBeAssignable fl m = Some p \<Longrightarrow> \<exists>msg. p = Panic msg"
  by (auto simp: mustBeAssignable_def split: if_splits)

lemma valuePanic_Panic: "valuePanic i fl t v xs = Some p \<Longrightarrow> \<exists>msg. p = Panic msg"
proof (induction xs arbitrary: i fl t v)
  case Nil
  then show ?case by simp
next
  case (Cons x xs)
  show ?case
  proof (cases "if throughPtr i t \<and> IsNil v then mustBeAssignable fl ''reflect.Value.Set'' else None")
    case None
    then show ?thesis using Cons.prems Cons.IH by (simp add: Let_def)
  next
    case (Some q)
    then have "p = q" using Cons.prems by simp
    moreover have "mustBeAssignable fl ''reflect.Value.Set'' = Some q"
      using Some by (simp split: if_splits)
    ultimately show ?thesis using mustBeAssignable_Panic by blast
  qed
qed

lemma findStructField_Panic: "findStructField fl typ val nm = Inl p \<Longrightarrow> \<exists>msg. p = Panic msg"
  by (auto simp: findStructField_def Let_def dest: valuePanic_Panic
           split: sum.splits prod.splits option.splits)

lemma fieldError_cases:
  "(\<exists>reason. fieldError d i k e = DecodeError (lineNo d) (i + 1) k reason)
   \<or> (\<exists>msg. fieldError d i k e = Panic msg)"
  by (cases e) (simp_all add: fieldError_def)

lemma mapField_error:
  assumes "Kind typ \<noteq> KMap" and "fst (mapField ext d fl typ i k t val) = Some e"
  shows "(\<exists>hint reason. e = DecodeError (lineNo d) (i + 1) hint reason) \<or> (\<exists>msg. e = Panic msg)"
proof (cases "findStructField fl typ val k")
  case (Inl p)
  then have "e = p" using assms by (simp add: mapField_def Let_def)
  then show ?thesis using findStructField_Panic [OF Inl] by blast
next
  case (Inr r)
  obtain fi val1 where r: "r = (fi, val1)" by (cases r)
  show ?thesis
  proof (cases fi)
    case None
    then show ?thesis using assms Inr r by (auto simp: mapField_def Let_def split: if_splits)
  next
    case (Some finfo)
    then obtain e' where "e = fieldError d i k e'"
      using assms Inr r
      by (auto simp: mapField_def Let_def split: prod.splits option.splits)
    then show ?thesis using fieldError_cases [of d i k e'] by auto
  qed
qed

lemma mapFields_error:
  "Kind typ \<noteq> KMap \<Longrightarrow> length ts = length ks \<Longrightarrow>
   fst (mapFields ext d fl typ i ks ts val) = Some e \<Longrightarrow>
   (\<exists>fieldNo hint reason. e = DecodeError (lineNo d) fieldNo hint reason) \<or> (\<exists>msg. e = Panic msg)"
proof (induction ks arbitrary: ts i val)
  case Nil
  then show ?case by simp
next
  case (Cons k ks)
  then obtain t ts' where ts: "ts = t # ts'" and len: "length ts' = length ks"
    by (cases ts) auto
  obtain e1 v1 where m: "mapField ext d fl typ i k t val = (e1, v1)"
    by (cases "mapField ext d fl typ i k t val")
  show ?case
  proof (cases e1)
    case None
    then have "fst (mapFields ext d fl typ (Suc i) ks ts' v1) = Some e"
      using Cons.prems(3) ts m by simp
    then show ?thesis using Cons.IH [OF Cons.prems(1) len] by blast
  next
    case (Some e')
    then have "e = e'" using Cons.prems(3) ts m by simp
    then show ?thesis
      using mapField_error [OF Cons.prems(1), of ext d fl i k t val e] m Some by auto
  qed
qed

lemma mapFields_index:
  "snd (mapFields ext d fl typ i ks ts val) = snd (mapFields ext d fl typ j ks ts val)
   \<and> (fst (mapFields ext d fl typ i ks ts val) = None \<longleftrightarrow> fst (mapFields ext d fl typ j ks ts val) = None)"
proof (induction ks arbitrary: ts i j val)
  case Nil
  then show ?case by simp
next
  case (Cons k ks)
  show ?case
  proof (cases ts)
    case Nil
    then show ?thesis by simp
  next
    case ts: (Cons t ts')
    obtain e1 v1 where m1: "mapField ext d fl typ i k t val = (e1, v1)"
      by (cases "mapField ext d fl typ i k t val")
    obtain e2 v2 where m2: "mapField ext d fl typ j k t val = (e2, v2)"
      by (cases "mapField ext d fl typ j k t val")
    from mapField_index [of ext d fl "typ" i k t val j] m1 m2
    have v: "v1 = v2" and e: "e1 = None \<longleftrightarrow> e2 = None" by auto
    show ?thesis
    proof (cases e1)
      case None
      with e have "e2 = None" by simp
      with None m1 m2 v ts Cons.IH [where ts = ts' and i = "Suc i" and j = "Suc j" and val = v2] show ?thesis by simp
    next
      case (Some a)
      with e obtain b where "e2 = Some b" by (cases e2) auto
      with Some m1 m2 v ts show ?thesis by simp
    qed
  qed
qed

lemma tokenize_headerKeys [simp]: "tokenize (d\<lparr>headerKeys := ks\<rparr>) line = tokenize d line"
  by (simp add: tokenize_def)

lemma mapFields_cong_decoder:
  "trim d' = trim d \<Longrightarrow> skipUnknown d' = skipUnknown d \<Longrightarrow> lineNo d' = lineNo d \<Longrightarrow>
   mapFields ext d' fl typ i ks ts val = mapFields ext d fl typ i ks ts val"
proof (induction ks arbitrary: ts i val)
  case Nil
  then show ?case by simp
next
  case (Cons k ks)
  have "mapField ext d' fl typ i k t val = mapField ext d fl typ i k t val" for t
    unfolding mapField_def fieldError_def Cons.prems ..
  then show ?case using Cons.IH Cons.prems by (cases ts) (auto split: prod.splits option.splits)
qed

text \<open>
  The record \<open>unmarshal\<close> decodes into is what \<open>derefValue\<close> reaches from its
  argument: the argument itself (the element of a \<open>[]T\<close> in \<open>Decode\<close>), or what the
  argument points to (\<open>DecodeRecord(&r, line)\<close>; the element of a \<open>[]*T\<close> in
  \<open>Decode\<close>, a nil pointer that is set to a new \<open>T\<close> first).  When the record has no
  \<open>Unmarshaler\<close> and the line has as many tokens as the header has names, the loop
  over the columns decodes it, and the result is put back behind the pointer.
\<close>

lemma derefValue_struct: "Kind typ = KStruct \<Longrightarrow> derefValue canSet typ val = Inr (Direct, typ, val)"
  by (simp add: derefValue_def)

lemma derefValue_pointer: "derefValue canSet (TPtr typ) (VPtr (Some val)) = Inr (BehindPtr, typ, val)"
  by (simp add: derefValue_def)

lemma derefValue_nil_pointer: "derefValue True (TPtr typ) (VPtr None) = Inr (BehindPtr, typ, zero typ)"
  by (simp add: derefValue_def)

lemma unmarshal_record:
  assumes "derefValue canSet typ0 val0 = Inr (wr, typ, val)"
    and "UnmarshalCSV ext typ = None" and "UnmarshalCSV ext (TPtr typ) = None"
    and "length (tokenize d line) = length (headerKeys d)"
  shows "unmarshal ext d canSet typ0 val0 line =
           (case mapFields ext d (recordFlag wr canSet) typ 0 (headerKeys d) (tokenize d line) val of
              (err, val') \<Rightarrow> (err, rewrap wr val'))"
  using assms by (simp add: unmarshal_def Let_def)

lemma recordFlag_settable [simp]:
  "recordFlag BehindPtr canSet = settable" "recordFlag (BehindIfacePtr t) canSet = settable"
  "recordFlag Direct True = settable"
  by (simp_all add: recordFlag_def settable_def)

lemma unmarshal_through_pointer:
  assumes "Kind typ \<noteq> KPtr" and "Kind typ \<noteq> KInterface"
  shows "unmarshal ext d canSet (TPtr typ) (VPtr (Some val)) line =
           (case unmarshal ext d True typ val line of (err, val') \<Rightarrow> (err, VPtr (Some val')))"
proof -
  have p: "derefValue canSet (TPtr typ) (VPtr (Some val)) = Inr (BehindPtr, typ, val)"
    by (simp add: derefValue_def)
  have q: "derefValue True typ val = Inr (Direct, typ, val)"
    using assms by (cases "Kind typ") (simp_all add: derefValue_def)
  show ?thesis
    by (simp add: unmarshal_def p q Let_def split: prod.splits option.splits)
qed

text \<open>
  With skip-unknown enabled, a line under a header of which no name is a field
  decodes without error and leaves the record as it was.
\<close>

lemma mapFields_only_unknown:
  assumes "getTypeInfo typ = Inr tinfo"
    and "\<forall>fi\<in>set tinfo. \<not> (flags fi AND fAny > 0)" and "skipUnknown d"
  shows "\<forall>k\<in>set ks. k \<notin> name ` set tinfo \<Longrightarrow> length ts = length ks \<Longrightarrow>
         mapFields ext d fl typ i ks ts val = (None, val)"
proof (induction ks arbitrary: ts i)
  case Nil
  then show ?case by simp
next
  case (Cons k ks)
  then obtain t ts' where ts: "ts = t # ts'" and len: "length ts' = length ks"
    by (cases ts) auto
  have "k \<notin> name ` set tinfo" using Cons.prems(1) by simp
  then have "mapField ext d fl typ i k t val = (None, val)"
    using mapField_unknown [OF assms(1,2), of k ext d fl i t val] assms(3) by simp
  then show ?case using Cons.IH [OF _ len] Cons.prems(1) ts by simp
qed

lemma unmarshal_only_unknown:
  assumes "derefValue canSet typ0 val0 = Inr (wr, typ, val)"
    and "getTypeInfo typ = Inr tinfo"
    and "\<forall>fi\<in>set tinfo. \<not> (flags fi AND fAny > 0)"
    and "UnmarshalCSV ext typ = None" and "UnmarshalCSV ext (TPtr typ) = None"
    and "skipUnknown d" and "\<forall>k\<in>set (headerKeys d). k \<notin> name ` set tinfo"
    and "length (tokenize d line) = length (headerKeys d)"
  shows "unmarshal ext d canSet typ0 val0 line = (None, rewrap wr val)"
  using unmarshal_record [OF assms(1,4,5,8)]
        mapFields_only_unknown [OF assms(2,3,6,7,8), of ext "recordFlag wr canSet" 0 val]
  by simp

text \<open>
  A descriptor keeps the unexported embedded fields of a struct.  In \<open>L\<close> the field
  \<open>lower\<close> is read-only, and in a zero \<open>P\<close> the nil \<open>*inner\<close> cannot be set: decoding
  a token into the column \<open>lower\<close>, or into the column \<open>X\<close> of a zero \<open>P\<close>, panics in
  \<open>reflect\<close>; the column \<open>X\<close> of a \<open>P\<close> whose pointer is set is decoded.
\<close>

lemma unmarshal_unexported_embedded:
  "unmarshal testExtern ((NewDecoder [])\<lparr>headerKeys := [''lower'', ''Z'']\<rparr>) True typeL (zero typeL)
             ''abc,true''
     = (Some (Panic ''reflect: reflect.Value.SetString using value obtained using unexported field''),
        zero typeL)
   \<and> unmarshal testExtern ((NewDecoder [])\<lparr>headerKeys := [''X'', ''Z'']\<rparr>) True typeP (zero typeP)
               ''abc,true''
     = (Some (Panic ''reflect: reflect.Value.Set using value obtained using unexported field''),
        zero typeP)
   \<and> unmarshal testExtern ((NewDecoder [])\<lparr>headerKeys := [''X'', ''Z'']\<rparr>) True typeP
               (VStruct [VPtr (Some (VStruct [VString []])), VBool False]) ''abc,true''
     = (None, VStruct [VPtr (Some (VStruct [VString ''abc''])), VBool True])"
  by code_simp

text \<open>
  C8, as amended.  The record is of a struct type with a type descriptor that has no
  catch-all field (no field with the flag \<open>any\<close>), and has no \<open>Unmarshaler\<close>; it is
  passed to \<open>unmarshal\<close> as such or behind a pointer.  The header has a name \<open>k\<close>
  that is the name of no field, and the line has as many tokens as the header has
  names.  The columns are decoded from the left, and the first that fails ends the
  call.

  With skip-unknown disabled the call never succeeds: it ends with a \<open>DecodeError\<close>
  of the line or with a panic, and when the columns before \<open>k\<close> decode without
  error it ends with the \<open>DecodeError\<close> of the column of \<open>k\<close> (its number counted
  from 1, its name \<open>k\<close>) with the reason "field not found", the record holding what
  the columns before it gave (\<open>mapFields\<close> is the loop over the columns, here over
  those before \<open>k\<close>, on a record with the flags \<open>recordFlag wr canSet\<close>).

  With skip-unknown enabled the column is ignored: the record after the call, and
  whether the call succeeds, are those of decoding the line without that token
  against the header without that name; so the call succeeds, with the same record,
  whenever that decoding does.
\<close>

theorem unknown_field_policy:
  assumes dv: "derefValue canSet typ0 val0 = Inr (wr, typ, val)"
    and ti: "getTypeInfo typ = Inr tinfo"
    and noany: "\<forall>fi\<in>set tinfo. \<not> (flags fi AND fAny > 0)"
    and unk: "k \<notin> name ` set tinfo"
    and nom: "UnmarshalCSV ext typ = None" "UnmarshalCSV ext (TPtr typ) = None"
    and hdr: "headerKeys d = ks1 @ k # ks2"
    and toks: "tokenize d line = ts1 @ t # ts2"
    and l1: "length ts1 = length ks1" and l2: "length ts2 = length ks2"
  shows "(\<not> skipUnknown d \<longrightarrow>
            ((\<exists>fieldNo hint reason.
                fst (unmarshal ext d canSet typ0 val0 line)
                  = Some (DecodeError (lineNo d) fieldNo hint reason))
             \<or> (\<exists>msg. fst (unmarshal ext d canSet typ0 val0 line) = Some (Panic msg)))
            \<and> (\<forall>val1. mapFields ext d (recordFlag wr canSet) typ 0 ks1 ts1 val = (None, val1) \<longrightarrow>
                  unmarshal ext d canSet typ0 val0 line =
                    (Some (DecodeError (lineNo d) (length ks1 + 1) k (Some ErrFieldNotFound)),
                     rewrap wr val1)))
         \<and> (skipUnknown d \<longrightarrow>
              (\<forall>line'. tokenize d line' = ts1 @ ts2 \<longrightarrow>
                 snd (unmarshal ext d canSet typ0 val0 line)
                   = snd (unmarshal ext (d\<lparr>headerKeys := ks1 @ ks2\<rparr>) canSet typ0 val0 line')
                 \<and> (fst (unmarshal ext d canSet typ0 val0 line) = None
                      \<longleftrightarrow> fst (unmarshal ext (d\<lparr>headerKeys := ks1 @ ks2\<rparr>) canSet typ0 val0 line') = None)
                 \<and> (\<forall>r. unmarshal ext (d\<lparr>headerKeys := ks1 @ ks2\<rparr>) canSet typ0 val0 line' = (None, r)
                        \<longrightarrow> unmarshal ext d canSet typ0 val0 line = (None, r))))"
proof -
  define fl where rf: "fl = recordFlag wr canSet"
  have len: "length (tokenize d line) = length (headerKeys d)"
    using hdr toks l1 l2 by simp
  have u: "unmarshal ext d canSet typ0 val0 line
             = (case mapFields ext d fl typ 0 (ks1 @ k # ks2) (ts1 @ t # ts2) val of
                  (err, val') \<Rightarrow> (err, rewrap wr val'))"
    using unmarshal_record [OF dv nom len] hdr toks rf by simp
  obtain e1 v1 where p: "mapFields ext d fl typ 0 ks1 ts1 val = (e1, v1)"
    by (cases "mapFields ext d fl typ 0 ks1 ts1 val")
  have split: "mapFields ext d fl typ 0 (ks1 @ k # ks2) (ts1 @ t # ts2) val =
      (case e1 of Some e \<Rightarrow> (Some e, v1)
       | None \<Rightarrow> mapFields ext d fl typ (length ks1) (k # ks2) (t # ts2) v1)"
    using mapFields_append [OF l1, of ext d fl "typ" 0 "k # ks2" "t # ts2" val] p
    by (cases e1) auto
  have col: "mapField ext d fl typ (length ks1) k t v1 =
      (if skipUnknown d then (None, v1)
       else (Some (DecodeError (lineNo d) (length ks1 + 1) k (Some ErrFieldNotFound)), v1))"
    by (rule mapField_unknown [OF ti noany unk])
  have step: "mapFields ext d fl typ (length ks1) (k # ks2) (t # ts2) v1 =
      (if skipUnknown d then mapFields ext d fl typ (Suc (length ks1)) ks2 ts2 v1
       else (Some (DecodeError (lineNo d) (length ks1 + 1) k (Some ErrFieldNotFound)), v1))"
    by (simp add: col)
  have loop: "mapFields ext d fl typ 0 (ks1 @ k # ks2) (ts1 @ t # ts2) val =
      (case e1 of Some e \<Rightarrow> (Some e, v1)
       | None \<Rightarrow>
           (if skipUnknown d then mapFields ext d fl typ (Suc (length ks1)) ks2 ts2 v1
            else (Some (DecodeError (lineNo d) (length ks1 + 1) k (Some ErrFieldNotFound)), v1)))"
    by (simp only: split step)
  have fst_u: "fst (unmarshal ext d canSet typ0 val0 line)
                 = fst (mapFields ext d fl typ 0 (ks1 @ k # ks2) (ts1 @ t # ts2) val)"
    and snd_u: "snd (unmarshal ext d canSet typ0 val0 line)
                 = rewrap wr (snd (mapFields ext d fl typ 0 (ks1 @ k # ks2) (ts1 @ t # ts2) val))"
    by (simp_all add: u split: prod.splits)
  have pair_u: "unmarshal ext d canSet typ0 val0 line
                 = (fst (mapFields ext d fl typ 0 (ks1 @ k # ks2) (ts1 @ t # ts2) val),
                    rewrap wr (snd (mapFields ext d fl typ 0 (ks1 @ k # ks2) (ts1 @ t # ts2) val)))"
    using fst_u snd_u by (simp add: prod_eq_iff)
  have nonone: "fst (unmarshal ext d canSet typ0 val0 line) \<noteq> None" if "\<not> skipUnknown d"
    using that by (cases e1) (simp_all add: fst_u loop)
  have noskip: "(\<exists>fieldNo hint reason.
      fst (unmarshal ext d canSet typ0 val0 line) = Some (DecodeError (lineNo d) fieldNo hint reason))
      \<or> (\<exists>msg. fst (unmarshal ext d canSet typ0 val0 line) = Some (Panic msg))"
    if ns: "\<not> skipUnknown d"
  proof -
    obtain e where e: "fst (unmarshal ext d canSet typ0 val0 line) = Some e"
      using nonone [OF ns] by auto
    have km: "Kind typ \<noteq> KMap" using getTypeInfo_Struct [OF ti] by simp
    have eq: "length (ts1 @ t # ts2) = length (ks1 @ k # ks2)" using l1 l2 by simp
    have "fst (mapFields ext d fl typ 0 (ks1 @ k # ks2) (ts1 @ t # ts2) val) = Some e"
      using e fst_u by simp
    from mapFields_error [OF km eq this] e show ?thesis by auto
  qed
  have noskip2: "unmarshal ext d canSet typ0 val0 line =
        (Some (DecodeError (lineNo d) (length ks1 + 1) k (Some ErrFieldNotFound)), rewrap wr val1)"
    if "\<not> skipUnknown d" and "mapFields ext d fl typ 0 ks1 ts1 val = (None, val1)" for val1
  proof -
    from that(2) p have "e1 = None" and "v1 = val1" by simp_all
    then show ?thesis using that(1) by (simp add: pair_u loop)
  qed
  have skip: "snd (unmarshal ext d canSet typ0 val0 line)
                   = snd (unmarshal ext (d\<lparr>headerKeys := ks1 @ ks2\<rparr>) canSet typ0 val0 line')
                 \<and> (fst (unmarshal ext d canSet typ0 val0 line) = None
                      \<longleftrightarrow> fst (unmarshal ext (d\<lparr>headerKeys := ks1 @ ks2\<rparr>) canSet typ0 val0 line') = None)
                 \<and> (\<forall>r. unmarshal ext (d\<lparr>headerKeys := ks1 @ ks2\<rparr>) canSet typ0 val0 line' = (None, r)
                        \<longrightarrow> unmarshal ext d canSet typ0 val0 line = (None, r))"
    if sk: "skipUnknown d" and tl: "tokenize d line' = ts1 @ ts2" for line'
  proof -
    let ?d' = "d\<lparr>headerKeys := ks1 @ ks2\<rparr>"
    have len': "length (tokenize ?d' line') = length (headerKeys ?d')"
      using tl l1 l2 by simp
    have u': "unmarshal ext ?d' canSet typ0 val0 line'
               = (case mapFields ext d fl typ 0 (ks1 @ ks2) (ts1 @ ts2) val of
                    (err, val') \<Rightarrow> (err, rewrap wr val'))"
      using unmarshal_record [OF dv nom len'] tl rf
      by (simp add: mapFields_cong_decoder [where d' = "d\<lparr>headerKeys := ks1 @ ks2\<rparr>" and d = d])
    have loop': "mapFields ext d fl typ 0 (ks1 @ ks2) (ts1 @ ts2) val =
      (case e1 of Some e \<Rightarrow> (Some e, v1)
       | None \<Rightarrow> mapFields ext d fl typ (length ks1) ks2 ts2 v1)"
      using mapFields_append [OF l1, of ext d fl "typ" 0 ks2 ts2 val] p
      by (cases e1) auto
    have ix: "snd (mapFields ext d fl typ (Suc (length ks1)) ks2 ts2 v1)
                = snd (mapFields ext d fl typ (length ks1) ks2 ts2 v1)
              \<and> (fst (mapFields ext d fl typ (Suc (length ks1)) ks2 ts2 v1) = None
                   \<longleftrightarrow> fst (mapFields ext d fl typ (length ks1) ks2 ts2 v1) = None)"
      by (rule mapFields_index)
    have fst_u': "fst (unmarshal ext ?d' canSet typ0 val0 line')
                 = fst (mapFields ext d fl typ 0 (ks1 @ ks2) (ts1 @ ts2) val)"
      and snd_u': "snd (unmarshal ext ?d' canSet typ0 val0 line')
                 = rewrap wr (snd (mapFields ext d fl typ 0 (ks1 @ ks2) (ts1 @ ts2) val))"
      by (simp_all add: u' split: prod.splits)
    have both: "snd (unmarshal ext d canSet typ0 val0 line)
                   = snd (unmarshal ext ?d' canSet typ0 val0 line')
                 \<and> (fst (unmarshal ext d canSet typ0 val0 line) = None
                      \<longleftrightarrow> fst (unmarshal ext ?d' canSet typ0 val0 line') = None)"
    proof (cases e1)
      case None
      then show ?thesis using sk ix by (simp add: fst_u snd_u fst_u' snd_u' loop loop')
    next
      case (Some e)
      then show ?thesis by (simp add: fst_u snd_u fst_u' snd_u' loop loop')
    qed
    have "unmarshal ext d canSet typ0 val0 line = (None, r)"
      if "unmarshal ext ?d' canSet typ0 val0 line' = (None, r)" for r
    proof -
      from that have "fst (unmarshal ext ?d' canSet typ0 val0 line') = None"
        and "snd (unmarshal ext ?d' canSet typ0 val0 line') = r" by simp_all
      with both have "fst (unmarshal ext d canSet typ0 val0 line) = None"
        and "snd (unmarshal ext d canSet typ0 val0 line) = r" by simp_all
      then show ?thesis by (simp add: prod_eq_iff)
    qed
    with both show ?thesis by blast
  qed
  show ?thesis using noskip noskip2 skip unfolding rf by blast
qed

theorem unknown_field_policy_witness:
  "DecodeRecord testExtern (Decoder_SkipUnknown decoderU False)
                (Some (TPtr typeA, VPtr (Some (zero typeA)))) ''Hello,42,23.45,true,Unknown''
     = (Some (DecodeError 2 5 ''x'' (Some ErrFieldNotFound)), Some (TPtr typeA, VPtr (Some A1)))
   \<and> DecodeRecord testExtern decoderU
                  (Some (TPtr typeA, VPtr (Some (zero typeA)))) ''Hello,42,23.45,true,Unknown''
     = (None, Some (TPtr typeA, VPtr (Some A1)))
   \<and> unmarshal testExtern (Decoder_SkipUnknown decoderU False) True typeA (zero typeA)
               ''Hello,42,23.45,true,Unknown''
     = (Some (DecodeError 2 5 ''x'' (Some ErrFieldNotFound)), A1)
   \<and> unmarshal testExtern decoderU True typeA (zero typeA) ''Hello,42,23.45,true,Unknown''
     = (None, A1)"
proof -
  let ?tinfo = "[\<lparr>idx = [0], name = ''s'', flags = 1\<rparr>, \<lparr>idx = [1], name = ''b'', flags = 1\<rparr>,
                 \<lparr>idx = [2], name = ''i'', flags = 1\<rparr>, \<lparr>idx = [3], name = ''f'', flags = 1\<rparr>]"
  let ?ks1 = "[''s'', ''i'', ''f'', ''b'']"
  let ?ts1 = "[''Hello'', ''42'', ''23.45'', ''true'']"
  let ?line = "''Hello,42,23.45,true,Unknown''"
  let ?dF = "Decoder_SkipUnknown decoderU False"
  let ?p = "VPtr (Some (zero typeA))"
  have ti: "getTypeInfo typeA = Inr ?tinfo" by code_simp
  have noany: "\<forall>fi\<in>set ?tinfo. \<not> (flags fi AND fAny > 0)" by (simp add: fAny_def)
  have unk: "''x'' \<notin> name ` set ?tinfo" by simp
  have nom1: "UnmarshalCSV testExtern typeA = None" by (simp add: testExtern_def)
  have nom2: "UnmarshalCSV testExtern (TPtr typeA) = None" by (simp add: testExtern_def)
  have l1: "length ?ts1 = length ?ks1" by simp
  have l2: "length ([] :: string list) = length ([] :: string list)" by simp
  have dvP: "derefValue False (TPtr typeA) ?p = Inr (BehindPtr, typeA, zero typeA)"
    by (rule derefValue_pointer)
  have dvS: "derefValue True typeA (zero typeA) = Inr (Direct, typeA, zero typeA)"
    by (rule derefValue_struct) (simp add: typeA_def)
  have hdrF: "headerKeys ?dF = ?ks1 @ ''x'' # []"
    by (simp add: Decoder_SkipUnknown_def decoderU_def)
  have toksF: "tokenize ?dF ?line = ?ts1 @ ''Unknown'' # []" by code_simp
  have preF: "mapFields testExtern ?dF settable typeA 0 ?ks1 ?ts1 (zero typeA) = (None, A1)"
    by code_simp
  have nsF: "\<not> skipUnknown ?dF" by (simp add: Decoder_SkipUnknown_def)
  have lnF: "lineNo ?dF = 2" by (simp add: Decoder_SkipUnknown_def decoderU_def NewDecoder_def)
  have firstP: "unmarshal testExtern ?dF False (TPtr typeA) ?p ?line
                 = (Some (DecodeError 2 5 ''x'' (Some ErrFieldNotFound)), VPtr (Some A1))"
    using unknown_field_policy [OF dvP ti noany unk nom1 nom2 hdrF toksF l1 l2]
          nsF preF lnF by simp
  have firstS: "unmarshal testExtern ?dF True typeA (zero typeA) ?line
                 = (Some (DecodeError 2 5 ''x'' (Some ErrFieldNotFound)), A1)"
    using unknown_field_policy [OF dvS ti noany unk nom1 nom2 hdrF toksF l1 l2]
          nsF preF lnF by simp
  have hdrT: "headerKeys decoderU = ?ks1 @ ''x'' # []" by (simp add: decoderU_def)
  have toksT: "tokenize decoderU ?line = ?ts1 @ ''Unknown'' # []" by code_simp
  have toksT': "tokenize decoderU ''Hello,42,23.45,true'' = ?ts1 @ []" by code_simp
  have sT: "skipUnknown decoderU" by (simp add: decoderU_def NewDecoder_def)
  have redP: "unmarshal testExtern (decoderU\<lparr>headerKeys := ?ks1 @ []\<rparr>) False (TPtr typeA) ?p
                ''Hello,42,23.45,true'' = (None, VPtr (Some A1))" by code_simp
  have redS: "unmarshal testExtern (decoderU\<lparr>headerKeys := ?ks1 @ []\<rparr>) True typeA (zero typeA)
                ''Hello,42,23.45,true'' = (None, A1)" by code_simp
  have secondP: "unmarshal testExtern decoderU False (TPtr typeA) ?p ?line = (None, VPtr (Some A1))"
    using unknown_field_policy [OF dvP ti noany unk nom1 nom2 hdrT toksT l1 l2]
          sT toksT' redP by blast
  have secondS: "unmarshal testExtern decoderU True typeA (zero typeA) ?line = (None, A1)"
    using unknown_field_policy [OF dvS ti noany unk nom1 nom2 hdrT toksT l1 l2]
          sT toksT' redS by blast
  show ?thesis using firstP firstS secondP secondS by (simp add: DecodeRecord_def)
qed

text \<open>
  C8 as it stands promises the error "field not found", or success, whatever the
  other columns hold.  The columns are decoded in order, so a column before the
  unknown one that does not convert ends the call first: with the header \<open>i,x\<close>,
  where \<open>x\<close> is no field of \<open>A\<close>, the line \<open>abc,1\<close> fails at column 1 in \<open>ParseInt\<close>,
  with skip-unknown enabled (the default of \<open>Unmarshal\<close>) as well as disabled.
\<close>

theorem unknown_field_behind_failing_column:
  "Unmarshal testExtern (''i,x'' @ [CHR 0x0A] @ ''abc,1'' @ [CHR 0x0A])
             (Some (TPtr (TSlice typeA), VPtr (Some (VSlice (Some [])))))
     = (Some (DecodeError 2 1 ''i'' (Some (NumError ''ParseInt'' ''abc'' ErrSyntax))),
        Some (TPtr (TSlice typeA), VPtr (Some (VSlice (Some [])))))
   \<and> fst (Decode testExtern
             (Decoder_SkipUnknown (NewDecoder (''i,x'' @ [CHR 0x0A] @ ''abc,1'' @ [CHR 0x0A])) False)
             (Some (TPtr (TSlice typeA), VPtr (Some (VSlice (Some []))))))
     = Some (DecodeError 2 1 ''i'' (Some (NumError ''ParseInt'' ''abc'' ErrSyntax)))"
  by code_simp

section \<open>The round trip of Marshal and Unmarshal\<close>

subsection \<open>Splitting, scanning and the numbers\<close>

lemma Split_not_Nil: "Split str c \<noteq> []"
  by (induction str) (auto split: list.splits)

lemma Split_no_sep: "c \<notin> set t \<Longrightarrow> Split t c = [t]"
  by (induction t) auto

lemma Split_append_sep: "c \<notin> set t \<Longrightarrow> Split (t @ c # r) c = t # Split r c"
  by (induction t) auto

lemma Split_Join:
  "ts \<noteq> [] \<Longrightarrow> \<forall>t\<in>set ts. c \<notin> set t \<Longrightarrow> Split (Join ts [c]) c = ts"
proof (induction ts "[c]" rule: Join.induct)
  case 1
  then show ?case by simp
next
  case (2 a)
  then show ?case by (simp add: Split_no_sep)
next
  case (3 a b r)
  then show ?case using Split_append_sep [of c a "Join (b # r) [c]"] by simp
qed

text \<open>A token that the merge of quoted tokens passes on as it is.\<close>

definition unquoted :: "string \<Rightarrow> bool" where
  "unquoted t = (\<not> HasPrefix t Wrapper \<and> \<not> HasSuffix t Wrapper)"

lemma mergeToken_unquoted: "unquoted v \<Longrightarrow> mergeToken sp (acc, []) v = (acc @ [v], [])"
  by (simp add: mergeToken_def unquoted_def Let_def)

lemma foldl_mergeToken_unquoted:
  "\<forall>t\<in>set ts. unquoted t \<Longrightarrow> foldl (mergeToken sp) (acc, []) ts = (acc @ ts, [])"
  by (induction ts arbitrary: acc) (auto simp: mergeToken_unquoted)

lemma combineTokens_unquoted: "\<forall>t\<in>set ts. unquoted t \<Longrightarrow> combineTokens sp ts = ts"
  by (simp add: combineTokens_def foldl_mergeToken_unquoted)

lemma Scan_line:
  assumes "CHR 0x0A \<notin> set l" and "length l < MaxScanTokenSize" and "dropCR l = l"
  shows "Scan (l @ CHR 0x0A # rest) = Token l rest"
proof -
  have t: "takeWhile (\<lambda>c. c \<noteq> CHR 0x0A) (l @ CHR 0x0A # rest) = l"
    using assms(1) by (induction l) auto
  have d: "dropWhile (\<lambda>c. c \<noteq> CHR 0x0A) (l @ CHR 0x0A # rest) = CHR 0x0A # rest"
    using assms(1) by (induction l) auto
  show ?thesis using assms(2,3) by (simp add: Scan_def t d del: takeWhile_append dropWhile_append)
qed

lemma parseUint_append:
  "parseUint mx n (str @ [c]) =
     (case parseUint mx n str of
        Inl e \<Rightarrow> Inl e
      | Inr m \<Rightarrow> if \<not> isDigit c then Inl ErrSyntax
                 else if 10 * m + digitVal c > mx then Inl ErrRange
                 else Inr (10 * m + digitVal c))"
  by (induction str arbitrary: n) auto

lemma digitChar_props: "d < 10 \<Longrightarrow> isDigit (digitChar d) \<and> digitVal (digitChar d) = d"
  by (simp add: isDigit_def digitVal_def digitChar_def)

lemma parseUint_FormatUint: "n \<le> mx \<Longrightarrow> parseUint mx 0 (FormatUint n) = Inr n"
proof (induction n rule: FormatUint.induct)
  case (1 n)
  show ?case
  proof (cases "n < 10")
    case True
    then show ?thesis using digitChar_props [of n] "1.prems" by (simp add: FormatUint.simps [of n])
  next
    case False
    have m: "n mod 10 < 10" by simp
    have "n div 10 \<le> mx" using "1.prems" by simp
    then have ih: "parseUint mx 0 (FormatUint (n div 10)) = Inr (n div 10)"
      using False "1.IH" by simp
    have "10 * (n div 10) + n mod 10 = n" by simp
    then show ?thesis using False ih digitChar_props [OF m] "1.prems"
      by (simp add: FormatUint.simps [of n] parseUint_append)
  qed
qed

lemma FormatUint_digits: "FormatUint n \<noteq> [] \<and> (\<forall>c\<in>set (FormatUint n). isDigit c)"
proof (induction n rule: FormatUint.induct)
  case (1 n)
  show ?case
  proof (cases "n < 10")
    case True
    then show ?thesis using digitChar_props [of n] by (simp add: FormatUint.simps [of n])
  next
    case False
    have "n mod 10 < 10" by simp
    then show ?thesis using False 1 digitChar_props [of "n mod 10"]
      by (simp add: FormatUint.simps [of n])
  qed
qed

lemma maxVal_bound: "n < 2 ^ b \<Longrightarrow> n \<le> maxVal b"
  by (cases "b = 0") (simp_all add: maxVal_def width_def IntSize_def)

lemma ParseUint_FormatUint: "n < 2 ^ b \<Longrightarrow> ParseUint (FormatUint n) b = Inr n"
  using FormatUint_digits [of n] parseUint_FormatUint [OF maxVal_bound, of n b]
  by (simp add: ParseUint_def)

lemma isDigit_not_sign: "isDigit c \<Longrightarrow> c \<noteq> CHR ''+'' \<and> c \<noteq> CHR ''-''"
  by (auto simp: isDigit_def)

lemma cutoff_bounds:
  shows "(2::nat) ^ (b - 1) \<le> 2 ^ (width b - 1)" and "(2::nat) ^ (width b - 1) \<le> maxVal b"
proof -
  show "(2::nat) ^ (b - 1) \<le> 2 ^ (width b - 1)"
    by (cases "b = 0") (simp_all add: width_def IntSize_def)
  have w: "0 < width b" by (simp add: width_def IntSize_def)
  then obtain k where k: "width b = Suc k" by (cases "width b") auto
  show "(2::nat) ^ (width b - 1) \<le> maxVal b"
    by (simp add: maxVal_def k)
qed

lemma ParseInt_digits:
  assumes "str \<noteq> []" and "\<forall>c\<in>set str. isDigit c" and "ParseUint str b = Inr un"
  shows "ParseInt (CHR ''-'' # str) b
           = (if un > 2 ^ (width b - 1) then Inl ErrRange else Inr (- int un))"
    and "ParseInt str b = (if un \<ge> 2 ^ (width b - 1) then Inl ErrRange else Inr (int un))"
proof -
  show "ParseInt (CHR ''-'' # str) b
          = (if un > 2 ^ (width b - 1) then Inl ErrRange else Inr (- int un))"
    using assms by (simp add: ParseInt_def Let_def)
  have h: "hd str \<noteq> CHR ''+'' \<and> hd str \<noteq> CHR ''-''"
    using assms(1,2) isDigit_not_sign [of "hd str"] by (cases str) auto
  show "ParseInt str b = (if un \<ge> 2 ^ (width b - 1) then Inl ErrRange else Inr (int un))"
    using assms h by (simp add: ParseInt_def Let_def)
qed

lemma ParseInt_FormatInt:
  assumes "- (2 ^ (b - 1)) \<le> i" and "i < 2 ^ (b - 1)"
  shows "ParseInt (FormatInt i) b = Inr i"
proof (cases "i < 0")
  case True
  have "- i \<le> int (2 ^ (b - 1))" using assms(1) by simp
  then have le: "nat (- i) \<le> 2 ^ (b - 1)" by (simp only: nat_le_iff)
  have lec: "nat (- i) \<le> 2 ^ (width b - 1)" using le cutoff_bounds(1) [of b] by (rule le_trans)
  have "nat (- i) \<le> maxVal b" using lec cutoff_bounds(2) [of b] by (rule le_trans)
  then have pu: "ParseUint (FormatUint (nat (- i))) b = Inr (nat (- i))"
    using FormatUint_digits [of "nat (- i)"] parseUint_FormatUint [of "nat (- i)" "maxVal b"]
    by (simp add: ParseUint_def)
  have "ParseInt (CHR ''-'' # FormatUint (nat (- i))) b = Inr (- int (nat (- i)))"
    using ParseInt_digits(1) [OF _ _ pu] FormatUint_digits [of "nat (- i)"] lec
    by simp
  then show ?thesis using True by (simp add: FormatInt_def)
next
  case False
  have "i < int (2 ^ (b - 1))" using assms(2) by simp
  then have lt: "nat i < 2 ^ (b - 1)" using False by (simp only: nat_less_iff)
  have ltc: "nat i < 2 ^ (width b - 1)" using lt cutoff_bounds(1) [of b] by (rule less_le_trans)
  have "nat i \<le> maxVal b" using less_imp_le [OF ltc] cutoff_bounds(2) [of b] by (rule le_trans)
  then have pu: "ParseUint (FormatUint (nat i)) b = Inr (nat i)"
    using FormatUint_digits [of "nat i"] parseUint_FormatUint [of "nat i" "maxVal b"]
    by (simp add: ParseUint_def)
  have "ParseInt (FormatUint (nat i)) b = Inr (int (nat i))"
    using ParseInt_digits(2) [OF _ _ pu] FormatUint_digits [of "nat i"] ltc
    by simp
  then show ?thesis using False by (simp add: FormatInt_def)
qed

text \<open>
  A string that the encoder writes as it is and the decoder reads back as it is: no
  white space at either end, no separator and no line feed in it, no double quote
  at either end and no two double quotes in a row.
\<close>

definition plainString :: "string \<Rightarrow> bool" where
  "plainString str =
     (TrimSpace str = str \<and> Separator \<notin> set str \<and> CHR 0x0A \<notin> set str
      \<and> \<not> HasPrefix str Wrapper \<and> \<not> HasSuffix str Wrapper \<and> ReplaceQuotes str = str)"

text \<open>The printable ASCII characters other than the double quote and the separator.\<close>

definition tokenChar :: "char \<Rightarrow> bool" where
  "tokenChar c = (0x21 \<le> (of_char c :: nat) \<and> (of_char c :: nat) \<le> 0x7E
                  \<and> c \<noteq> CHR 0x22 \<and> c \<noteq> Separator)"

lemma tokenChar_not_space:
  "tokenChar c \<Longrightarrow> \<not> asciiSpace c \<and> \<not> space2 c b \<and> \<not> space3 c b a
                    \<and> \<not> space2 b c \<and> \<not> space3 a b c"
  by (auto simp: tokenChar_def asciiSpace_def space2_def space3_def)

lemma TrimLeftSpace_tokenChar: "str \<noteq> [] \<Longrightarrow> tokenChar (hd str) \<Longrightarrow> TrimLeftSpace str = str"
proof (induction str rule: TrimLeftSpace.induct)
  case 1
  then show ?case by simp
next
  case (2 a)
  then show ?case using tokenChar_not_space [of a] by simp
next
  case (3 a b)
  then show ?case using tokenChar_not_space [of a b] by simp
next
  case (4 a b c r)
  then show ?case using tokenChar_not_space [of a b c] by simp
qed

lemma TrimRightSpaceRev_tokenChar:
  "str \<noteq> [] \<Longrightarrow> tokenChar (hd str) \<Longrightarrow> TrimRightSpaceRev str = str"
proof (induction str rule: TrimRightSpaceRev.induct)
  case 1
  then show ?case by simp
next
  case (2 c)
  then show ?case using tokenChar_not_space [of c] by simp
next
  case (3 c b)
  then show ?case using tokenChar_not_space [of c b] by simp
next
  case (4 c b a r)
  then show ?case using tokenChar_not_space [of c b a] by simp
qed

lemma TrimSpace_tokenChars: "\<forall>c\<in>set str. tokenChar c \<Longrightarrow> TrimSpace str = str"
proof (cases "str = []")
  case True
  then show ?thesis by (simp add: TrimSpace_def)
next
  case False
  assume a: "\<forall>c\<in>set str. tokenChar c"
  from False a have l: "TrimLeftSpace str = str"
    by (intro TrimLeftSpace_tokenChar) (auto simp: hd_in_set)
  from False have "rev str \<noteq> []" by simp
  moreover from False a have "tokenChar (hd (rev str))"
    by (simp add: hd_rev last_in_set)
  ultimately have "TrimRightSpaceRev (rev str) = rev str"
    by (rule TrimRightSpaceRev_tokenChar)
  with l show ?thesis by (simp add: TrimSpace_def)
qed

lemma ReplaceQuotes_no_quote: "CHR 0x22 \<notin> set str \<Longrightarrow> ReplaceQuotes str = str"
  by (induction str rule: ReplaceQuotes.induct) auto

lemma unquoted_no_quote: "CHR 0x22 \<notin> set str \<Longrightarrow> unquoted str"
proof -
  assume a: "CHR 0x22 \<notin> set str"
  have p: "\<not> HasPrefix str Wrapper"
    using a by (cases str) (auto simp: HasPrefix_def Wrapper_def)
  have "\<not> HasSuffix str Wrapper"
  proof
    assume "HasSuffix str Wrapper"
    then have "str \<noteq> []" and "drop (length str - 1) str = [CHR 0x22]"
      by (auto simp: HasSuffix_def Wrapper_def)
    then have "last str = CHR 0x22"
      by (metis append_butlast_last_id append_eq_conv_conj last_snoc length_butlast)
    with \<open>str \<noteq> []\<close> a show False using last_in_set by metis
  qed
  with p show ?thesis by (simp add: unquoted_def)
qed

lemma plainString_tokenChars: "\<forall>c\<in>set str. tokenChar c \<Longrightarrow> plainString str"
proof -
  assume a: "\<forall>c\<in>set str. tokenChar c"
  have "\<not> tokenChar CHR 0x22" and "\<not> tokenChar Separator" and "\<not> tokenChar CHR 0x0A"
    by (simp_all add: tokenChar_def)
  with a have q: "CHR 0x22 \<notin> set str" and s: "Separator \<notin> set str" and n: "CHR 0x0A \<notin> set str"
    by blast+
  show ?thesis
    using TrimSpace_tokenChars [OF a] ReplaceQuotes_no_quote [OF q] unquoted_no_quote [OF q] s n
    by (simp add: plainString_def unquoted_def)
qed

lemma isDigit_tokenChar: "isDigit c \<Longrightarrow> tokenChar c"
  by (auto simp: isDigit_def tokenChar_def Separator_def)

lemma plainString_FormatUint: "plainString (FormatUint n)"
  using FormatUint_digits [of n] by (intro plainString_tokenChars) (auto intro: isDigit_tokenChar)

lemma plainString_FormatInt: "plainString (FormatInt i)"
proof -
  have "tokenChar CHR ''-''" by (simp add: tokenChar_def Separator_def)
  then show ?thesis
    using FormatUint_digits [of "nat (- i)"] FormatUint_digits [of "nat i"]
    by (intro plainString_tokenChars) (auto simp: FormatInt_def intro: isDigit_tokenChar)
qed

lemma plainString_FormatBool: "plainString (FormatBool b)"
  by (intro plainString_tokenChars) (auto simp: FormatBool_def tokenChar_def Separator_def)

lemma ParseBool_FormatBool: "ParseBool (TrimSpace (FormatBool b)) = Inr b"
proof -
  have "TrimSpace (FormatBool b) = FormatBool b"
    using plainString_FormatBool [of b] by (simp add: plainString_def)
  then show ?thesis by (simp add: ParseBool_def FormatBool_def)
qed

subsection \<open>The descriptor of a struct of primitive fields\<close>

text \<open>
  A struct field of a primitive kind that \<open>getTypeInfo\<close> takes as one field: exported,
  not embedded, not excluded by the tag \<open>-\<close>.  \<open>fieldInfos i fs\<close> are the descriptors of
  the fields \<open>fs\<close>, numbered from \<open>i\<close>.
\<close>

definition primitiveType :: "gtype \<Rightarrow> bool" where
  "primitiveType t =
     (case t of TString \<Rightarrow> True | TBool \<Rightarrow> True | TInt b \<Rightarrow> True | TUint b \<Rightarrow> True
      | TFloat b \<Rightarrow> True | _ \<Rightarrow> False)"

definition simpleField :: "gtype structField \<Rightarrow> bool" where
  "simpleField f = (PkgPath f = [] \<and> \<not> Anonymous f \<and> Tag f \<noteq> ''-'' \<and> primitiveType (Type f))"

fun fieldInfos :: "nat \<Rightarrow> gtype structField list \<Rightarrow> fieldInfo list" where
  "fieldInfos i [] = []"
| "fieldInfos i (f # fs) = structFieldInfo i f # fieldInfos (Suc i) fs"

lemma structFieldInfo_idx: "idx (structFieldInfo i f) = [i]"
  by (simp add: structFieldInfo_def Let_def split: prod.splits)

lemma any_flags_fold:
  "a = 0 \<or> a = fAny \<Longrightarrow>
   foldl (\<lambda>fl flag. if flag = ''any'' then fl OR fAny else fl) a xs = 0
   \<or> foldl (\<lambda>fl flag. if flag = ''any'' then fl OR fAny else fl) a xs = fAny"
proof (induction xs arbitrary: a)
  case Nil
  then show ?case by simp
next
  case (Cons x xs)
  have "(if x = ''any'' then a OR fAny else a) = 0 \<or> (if x = ''any'' then a OR fAny else a) = fAny"
    using Cons.prems by (auto simp: fAny_def)
  then show ?case using Cons.IH by simp
qed

lemma structFieldInfo_element: "flags (structFieldInfo i f) AND fElement \<noteq> 0"
proof -
  let ?fl0 = "foldl (\<lambda>fl flag. if flag = ''any'' then fl OR fAny else fl) 0 (tl (Split (Tag f) CHR '',''))"
  have "?fl0 = 0 \<or> ?fl0 = fAny" by (rule any_flags_fold) simp
  then have c: "(if ?fl0 AND fMode = 0 \<or> ?fl0 AND fMode = fAny then ?fl0 OR fElement else ?fl0)
                 AND fElement \<noteq> 0"
    by (auto simp: fElement_def fAny_def fMode_def)
  have e: "fElement AND fElement \<noteq> 0" by (simp add: fElement_def)
  show ?thesis
  proof (cases "length (Split (Tag f) CHR '','') = 1")
    case True
    then show ?thesis using e by (simp add: structFieldInfo_def Let_def)
  next
    case False
    then show ?thesis using c by (simp add: structFieldInfo_def Let_def)
  qed
qed

lemma fieldInfos_length [simp]: "length (fieldInfos i fs) = length fs"
  by (induction fs arbitrary: i) auto

lemma fieldInfos_nth: "j < length fs \<Longrightarrow> fieldInfos i fs ! j = structFieldInfo (i + j) (fs ! j)"
proof (induction fs arbitrary: i j)
  case Nil
  then show ?case by simp
next
  case (Cons f fs)
  then show ?case by (cases j) auto
qed

lemma fieldInfos_names: "map name (fieldInfos i fs) = map fieldName fs"
  by (induction fs arbitrary: i) (auto simp: structFieldInfo_name)

lemma addFieldInfo_fresh:
  "name newf \<notin> set (map name tinfo) \<Longrightarrow> addFieldInfo typ tinfo newf = Inr (tinfo @ [newf])"
proof -
  assume "name newf \<notin> set (map name tinfo)"
  then have "filter (\<lambda>oldf. name newf = name oldf) tinfo = []"
    by (induction tinfo) auto
  then show ?thesis by (simp add: addFieldInfo_def)
qed

lemma typeFields_simple:
  "\<forall>f\<in>set fs. simpleField f \<Longrightarrow> distinct (map name tinfo @ map fieldName fs) \<Longrightarrow>
   typeFields typ i fs tinfo = Inr (tinfo @ fieldInfos i fs)"
proof (induction fs arbitrary: i tinfo)
  case Nil
  then show ?case by simp
next
  case (Cons f fs)
  have sf: "simpleField f" using Cons.prems(1) by simp
  have fresh: "name (structFieldInfo i f) \<notin> set (map name tinfo)"
    using Cons.prems(2) by (auto simp: structFieldInfo_name)
  have d: "distinct (map name (tinfo @ [structFieldInfo i f]) @ map fieldName fs)"
    using Cons.prems(2) by (auto simp: structFieldInfo_name)
  have "typeFields typ (Suc i) fs (tinfo @ [structFieldInfo i f])
          = Inr ((tinfo @ [structFieldInfo i f]) @ fieldInfos (Suc i) fs)"
    using Cons.IH [of "tinfo @ [structFieldInfo i f]" "Suc i"] Cons.prems(1) d by simp
  then show ?case using sf addFieldInfo_fresh [OF fresh]
    by (simp add: simpleField_def)
qed

lemma getTypeInfo_simple:
  "\<forall>f\<in>set fs. simpleField f \<Longrightarrow> distinct (map fieldName fs) \<Longrightarrow>
   getTypeInfo (TStruct fs) = Inr (fieldInfos 0 fs)"
  using typeFields_simple [of fs "[]" "TStruct fs" 0] by simp

lemma pickField_distinct:
  "distinct (map name tinfo) \<Longrightarrow> j < length tinfo \<Longrightarrow>
   fst (pickField tinfo i (name (tinfo ! j)) a) = Some (tinfo ! j)"
proof (induction tinfo arbitrary: i j a)
  case Nil
  then show ?case by simp
next
  case (Cons v vs)
  show ?case
  proof (cases j)
    case 0
    then show ?thesis by (simp add: Let_def)
  next
    case (Suc j')
    then have "name v \<noteq> name (vs ! j')" using Cons.prems by auto
    then show ?thesis using Suc Cons by (simp add: Let_def)
  qed
qed

lemma field_access:
  assumes "j < length vs"
  shows "fieldType 0 (TStruct fs) [j] = Type (fs ! j)"
    and "fieldGet 0 (TStruct fs) (VStruct vs) [j] = vs ! j"
    and "fieldSet 0 (TStruct fs) (VStruct vs) [j] new = VStruct (vs[j := new])"
    and "valuePanic 0 fl (TStruct fs) (VStruct vs) [j] = None"
    and "valueFlag 0 fl (TStruct fs) [j] = fieldFlag fl (fs ! j)"
  by (simp_all add: throughPtr_def structFields_def Let_def)

lemma primitiveType_Kind: "primitiveType t \<Longrightarrow> Kind t \<noteq> KPtr \<and> Kind t \<noteq> KInterface"
  by (cases t) (auto simp: primitiveType_def)

lemma findStructField_simple:
  assumes sf: "\<forall>f\<in>set fs. simpleField f" and dn: "distinct (map fieldName fs)"
    and j: "j < length fs" and l: "length vs = length fs"
  shows "findStructField fl (TStruct fs) (VStruct vs) (fieldName (fs ! j))
           = Inr (Some (structFieldInfo j (fs ! j)), VStruct vs)"
    and "Encoder_findStructField fl (TStruct fs) (VStruct vs) (fieldName (fs ! j))
           = Inr (Some (structFieldInfo j (fs ! j)), VStruct vs)"
proof -
  have ti: "getTypeInfo (TStruct fs) = Inr (fieldInfos 0 fs)"
    using sf dn by (rule getTypeInfo_simple)
  have nth: "fieldInfos 0 fs ! j = structFieldInfo j (fs ! j)"
    using fieldInfos_nth [OF j, of 0] by simp
  have "fst (pickField (fieldInfos 0 fs) 0 (name (fieldInfos 0 fs ! j)) (-1)) = Some (fieldInfos 0 fs ! j)"
    using dn j by (intro pickField_distinct) (simp_all add: fieldInfos_names)
  then obtain a where pk: "pickField (fieldInfos 0 fs) 0 (fieldName (fs ! j)) (-1)
                             = (Some (structFieldInfo j (fs ! j)), a)"
    using nth by (cases "pickField (fieldInfos 0 fs) 0 (fieldName (fs ! j)) (-1)")
                 (simp add: structFieldInfo_name)
  have jv: "j < length vs" using j l by simp
  have k: "Kind (Type (fs ! j)) \<noteq> KPtr"
    using sf j primitiveType_Kind [of "Type (fs ! j)"] by (simp add: simpleField_def)
  show f: "findStructField fl (TStruct fs) (VStruct vs) (fieldName (fs ! j))
           = Inr (Some (structFieldInfo j (fs ! j)), VStruct vs)"
    using ti pk k jv
    by (simp add: findStructField_def structFieldInfo_idx throughPtr_def structFields_def Let_def)
  show "Encoder_findStructField fl (TStruct fs) (VStruct vs) (fieldName (fs ! j))
           = Inr (Some (structFieldInfo j (fs ! j)), VStruct vs)"
    using f by (simp add: Encoder_findStructField_def)
qed

text \<open>A simple field is exported: the struct's flags are its flags.\<close>

lemma fieldFlag_simple: "simpleField f \<Longrightarrow> \<not> flagRO fl \<Longrightarrow> fieldFlag fl f = fl"
  by (simp add: fieldFlag_def simpleField_def)

subsection \<open>Fields and their tokens\<close>

text \<open>
  A value of a primitive type that its text determines: a plain string, a boolean,
  an integer in the range of its type, a float whose text (as \<open>FormatFloat\<close> gives
  it) is not empty, is plain and is parsed back to the float by \<open>ParseFloat\<close>.  A
  field type is free of methods when it has neither \<open>String\<close> nor \<open>MarshalText\<close> nor
  \<open>UnmarshalText\<close> (on the type or on the pointer to it).  \<open>fieldToken\<close> is the text
  \<open>marshalSimple\<close> gives for a field.
\<close>

definition plainValue :: "extern \<Rightarrow> gtype \<Rightarrow> gvalue \<Rightarrow> bool" where
  "plainValue ext t v =
     (case (t, v) of
        (TString, VString str) \<Rightarrow> plainString str
      | (TBool, VBool b) \<Rightarrow> True
      | (TInt b, VInt i) \<Rightarrow> - (2 ^ (b - 1)) \<le> i \<and> i < 2 ^ (b - 1)
      | (TUint b, VUint n) \<Rightarrow> n < 2 ^ b
      | (TFloat b, VFloat f) \<Rightarrow>
          FormatFloat ext f b \<noteq> [] \<and> plainString (FormatFloat ext f b)
          \<and> ParseFloat ext (FormatFloat ext f b) b = Inr f
      | _ \<Rightarrow> False)"

definition fieldMethodsFree :: "extern \<Rightarrow> gtype \<Rightarrow> bool" where
  "fieldMethodsFree ext t =
     (Option.is_none (Stringer ext t) \<and> Option.is_none (MarshalText ext t)
      \<and> Option.is_none (UnmarshalText ext t) \<and> Option.is_none (UnmarshalText ext (TPtr t)))"

definition fieldToken :: "extern \<Rightarrow> gtype structField \<Rightarrow> gvalue \<Rightarrow> string" where
  "fieldToken ext f v =
     (case marshalSimple ext settable (Type f) v of Inr str \<Rightarrow> str | Inl err \<Rightarrow> [])"

definition recordTokens :: "extern \<Rightarrow> gtype structField list \<Rightarrow> gvalue \<Rightarrow> string list" where
  "recordTokens ext fs r = map2 (fieldToken ext) fs (structFields r)"

lemma plainValue_cases:
  assumes "plainValue ext t v"
  shows "(\<exists>str. t = TString \<and> v = VString str \<and> plainString str)
       \<or> (\<exists>b. t = TBool \<and> v = VBool b)
       \<or> (\<exists>b i. t = TInt b \<and> v = VInt i \<and> - (2 ^ (b - 1)) \<le> i \<and> i < 2 ^ (b - 1))
       \<or> (\<exists>b n. t = TUint b \<and> v = VUint n \<and> n < 2 ^ b)
       \<or> (\<exists>b f. t = TFloat b \<and> v = VFloat f \<and> FormatFloat ext f b \<noteq> []
              \<and> plainString (FormatFloat ext f b) \<and> ParseFloat ext (FormatFloat ext f b) b = Inr f)"
  using assms by (simp add: plainValue_def split: gtype.splits gvalue.splits)

lemma CanSet_assign: "CanSet fl \<Longrightarrow> assign fl m dst new = (None, new)"
  by (simp add: assign_def mustBeAssignable_def CanSet_def)

lemma plain_token:
  assumes st: "Stringer ext t = None" and pv: "plainValue ext t v" and cs: "CanSet fl'"
  shows "\<exists>tok. (\<forall>fl. marshalSimple ext fl t v = Inr tok) \<and> plainString tok
               \<and> setValue ext fl' t (zero t) tok nm = (None, v)"
proof -
  consider (str) str where "t = TString" "v = VString str" "plainString str"
    | (bool) b where "t = TBool" "v = VBool b"
    | (int) b i where "t = TInt b" "v = VInt i" "- (2 ^ (b - 1)) \<le> i" "i < 2 ^ (b - 1)"
    | (uint) b n where "t = TUint b" "v = VUint n" "n < 2 ^ b"
    | (float) b f where "t = TFloat b" "v = VFloat f" "FormatFloat ext f b \<noteq> []"
        "plainString (FormatFloat ext f b)" "ParseFloat ext (FormatFloat ext f b) b = Inr f"
    using plainValue_cases [OF pv] by blast
  then show ?thesis
  proof cases
    case str
    then show ?thesis using st CanSet_assign [OF cs]
      by (simp add: marshalSimple_def setValue_def setKind_def plainString_def)
  next
    case bool
    have "FormatBool b \<noteq> []" by (simp add: FormatBool_def)
    then show ?thesis
      using bool st plainString_FormatBool [of b] ParseBool_FormatBool [of b] CanSet_assign [OF cs]
      by (simp add: marshalSimple_def setValue_def setKind_def)
  next
    case int
    have "FormatInt i \<noteq> []" using FormatUint_digits by (simp add: FormatInt_def)
    then show ?thesis
      using int st plainString_FormatInt [of i] ParseInt_FormatInt [of b i] CanSet_assign [OF cs]
      by (simp add: marshalSimple_def setValue_def setKind_def)
  next
    case uint
    then show ?thesis
      using st plainString_FormatUint [of n] ParseUint_FormatUint [of n b] FormatUint_digits [of n]
            CanSet_assign [OF cs]
      by (simp add: marshalSimple_def setValue_def setKind_def)
  next
    case float
    then show ?thesis using st CanSet_assign [OF cs]
      by (simp add: marshalSimple_def setValue_def setKind_def)
  qed
qed

lemma CanSet_settable: "CanSet settable"
  by (simp add: CanSet_def settable_def)

lemma fieldToken_plain:
  assumes "Stringer ext (Type f) = None" and "plainValue ext (Type f) v"
  shows "marshalSimple ext fl (Type f) v = Inr (fieldToken ext f v)"
    and "plainString (fieldToken ext f v)"
    and "CanSet fl' \<Longrightarrow>
         setValue ext fl' (Type f) (zero (Type f)) (fieldToken ext f v) nm = (None, v)"
proof -
  obtain tok where a: "\<forall>fl. marshalSimple ext fl (Type f) v = Inr tok" and p: "plainString tok"
    using plain_token [OF assms CanSet_settable, of nm] by blast
  have ft: "fieldToken ext f v = tok" using a by (simp add: fieldToken_def)
  show "marshalSimple ext fl (Type f) v = Inr (fieldToken ext f v)" using a ft by simp
  show "plainString (fieldToken ext f v)" using p ft by simp
  show "setValue ext fl' (Type f) (zero (Type f)) (fieldToken ext f v) nm = (None, v)"
    if cs: "CanSet fl'"
  proof -
    obtain tok' where a': "\<forall>fl. marshalSimple ext fl (Type f) v = Inr tok'"
      and sv: "setValue ext fl' (Type f) (zero (Type f)) tok' nm = (None, v)"
      using plain_token [OF assms cs, of nm] by blast
    have "tok' = tok" using a a' by simp
    then show ?thesis using sv ft by simp
  qed
qed

lemma marshalFields_simple:
  assumes sf: "\<forall>f\<in>set fs. simpleField f" and dn: "distinct (map fieldName fs)"
    and l: "length vs = length fs"
    and mf: "\<forall>f\<in>set fs. fieldMethodsFree ext (Type f)"
    and pv: "\<forall>j<length fs. plainValue ext (Type (fs ! j)) (vs ! j)"
  shows "\<forall>j\<in>set js. j < length fs \<Longrightarrow>
         marshalFields ext e False (TStruct fs) (VStruct vs) (map (\<lambda>j. fieldName (fs ! j)) js)
           = Inr (map (\<lambda>j. fieldToken ext (fs ! j) (vs ! j)) js)"
proof (induction js)
  case Nil
  then show ?case by simp
next
  case (Cons j js)
  let ?fl = "\<lparr> flagAddr = False, flagRO = False \<rparr>"
  have j: "j < length fs" using Cons.prems by simp
  then have jv: "j < length vs" using l by simp
  have fj: "fs ! j \<in> set fs" using j by simp
  have find: "Encoder_findStructField ?fl (TStruct fs) (VStruct vs) (fieldName (fs ! j))
           = Inr (Some (structFieldInfo j (fs ! j)), VStruct vs)"
    using findStructField_simple(2) [OF sf dn j l] .
  have free: "fieldMethodsFree ext (Type (fs ! j))" using mf fj by blast
  have k: "Kind (Type (fs ! j)) \<noteq> KPtr \<and> Kind (Type (fs ! j)) \<noteq> KInterface"
    using sf fj primitiveType_Kind [of "Type (fs ! j)"] by (simp add: simpleField_def)
  have pj: "plainValue ext (Type (fs ! j)) (vs ! j)" using pv j by simp
  have st: "Stringer ext (Type (fs ! j)) = None" using free by (simp add: fieldMethodsFree_def Option.is_none_def)
  have fl: "valueFlag 0 ?fl (TStruct fs) [j] = ?fl"
    using field_access(5) [OF jv, of ?fl fs] fieldFlag_simple [of "fs ! j" ?fl] sf fj by simp
  have tok: "marshalSimple ext ?fl (Type (fs ! j)) (vs ! j) = Inr (fieldToken ext (fs ! j) (vs ! j))"
    using fieldToken_plain(1) [OF st pj] .
  have tr: "TrimSpace (fieldToken ext (fs ! j) (vs ! j)) = fieldToken ext (fs ! j) (vs ! j)"
    using fieldToken_plain(2) [OF st pj] by (simp add: plainString_def)
  have rest: "marshalFields ext e False (TStruct fs) (VStruct vs) (map (\<lambda>j. fieldName (fs ! j)) js)
           = Inr (map (\<lambda>j. fieldToken ext (fs ! j) (vs ! j)) js)"
    using Cons by simp
  have acc: "fieldType 0 (TStruct fs) [j] = Type (fs ! j)"
    "fieldGet 0 (TStruct fs) (VStruct vs) [j] = vs ! j"
    using field_access(1,2) [OF jv] by simp_all
  show ?case
    using find rest free k tok tr structFieldInfo_element [of j "fs ! j"]
    by (simp add: structFieldInfo_idx acc fl Let_def fieldMethodsFree_def Option.is_none_def
                  CanInterface_def CanAddr_def
             del: fieldType.simps fieldGet.simps valueFlag.simps)
qed

lemma marshalFields_record:
  assumes sf: "\<forall>f\<in>set fs. simpleField f" and dn: "distinct (map fieldName fs)"
    and l: "length vs = length fs"
    and mf: "\<forall>f\<in>set fs. fieldMethodsFree ext (Type f)"
    and pv: "\<forall>j<length fs. plainValue ext (Type (fs ! j)) (vs ! j)"
  shows "marshalFields ext e False (TStruct fs) (VStruct vs) (map fieldName fs)
           = Inr (recordTokens ext fs (VStruct vs))"
proof -
  have n: "map fieldName fs = map (\<lambda>j. fieldName (fs ! j)) [0..<length fs]"
    by (intro nth_equalityI) simp_all
  have "recordTokens ext fs (VStruct vs) = map (\<lambda>j. fieldToken ext (fs ! j) (vs ! j)) [0..<length fs]"
    using l by (intro nth_equalityI) (simp_all add: recordTokens_def structFields_def)
  then show ?thesis
    using marshalFields_simple [OF sf dn l mf pv, of "[0..<length fs]" e] n by simp
qed

subsection \<open>What Marshal writes\<close>

text \<open>
  A line the decoder takes as a record: not empty, not a comment, and short enough
  for the scanner.  A header name is plain when the decoder's trimming and splitting
  leave it as it is.  A plain record type is a struct type without
  \<open>MarshalCSV\<close>/\<open>UnmarshalCSV\<close>, with at least one field, whose fields are all simple,
  free of methods and have distinct plain names, and whose header line is taken as
  a line.  A plain record of it has a plain value in every field, and its line is
  taken as a line.
\<close>

definition lineOK :: "string \<Rightarrow> bool" where
  "lineOK l = (l \<noteq> [] \<and> \<not> HasPrefix l [Comment] \<and> length l < MaxScanTokenSize)"

definition headerName :: "string \<Rightarrow> bool" where
  "headerName nm = (TrimSpace nm = nm \<and> Separator \<notin> set nm \<and> CHR 0x0A \<notin> set nm)"

definition headerLine :: "gtype structField list \<Rightarrow> string" where
  "headerLine fs = Join (map fieldName fs) [Separator]"

definition recordLine :: "extern \<Rightarrow> gtype structField list \<Rightarrow> gvalue \<Rightarrow> string" where
  "recordLine ext fs r = Join (recordTokens ext fs r) [Separator]"

definition plainRecordType :: "extern \<Rightarrow> gtype \<Rightarrow> bool" where
  "plainRecordType ext t =
     (case t of
        TStruct fs \<Rightarrow>
          fs \<noteq> [] \<and> list_all simpleField fs \<and> distinct (map fieldName fs)
          \<and> list_all (\<lambda>f. headerName (fieldName f) \<and> fieldMethodsFree ext (Type f)) fs
          \<and> lineOK (headerLine fs)
          \<and> Option.is_none (MarshalCSV ext t) \<and> Option.is_none (UnmarshalCSV ext t)
          \<and> Option.is_none (UnmarshalCSV ext (TPtr t))
      | _ \<Rightarrow> False)"

definition plainRecord :: "extern \<Rightarrow> gtype \<Rightarrow> gvalue \<Rightarrow> bool" where
  "plainRecord ext t r =
     (case r of
        VStruct vs \<Rightarrow>
          list_all2 (\<lambda>f v. plainValue ext (Type f) v) (Fields t) vs
          \<and> lineOK (recordLine ext (Fields t) r)
      | _ \<Rightarrow> False)"

lemma plainRecordType_D:
  assumes "plainRecordType ext t"
  obtains fs where "t = TStruct fs" "fs \<noteq> []" "\<forall>f\<in>set fs. simpleField f"
    "distinct (map fieldName fs)" "\<forall>f\<in>set fs. headerName (fieldName f)"
    "\<forall>f\<in>set fs. fieldMethodsFree ext (Type f)" "lineOK (headerLine fs)"
    "MarshalCSV ext t = None" "UnmarshalCSV ext t = None" "UnmarshalCSV ext (TPtr t) = None"
  using assms by (cases t) (auto simp: plainRecordType_def list_all_iff Option.is_none_def)

lemma plainRecord_D:
  assumes "plainRecord ext (TStruct fs) r"
  obtains vs where "r = VStruct vs" "length vs = length fs"
    "\<forall>j<length fs. plainValue ext (Type (fs ! j)) (vs ! j)" "lineOK (recordLine ext fs r)"
  using assms by (cases r) (auto simp: plainRecord_def list_all2_conv_all_nth)

lemma EncodeRecord_plain:
  assumes pt: "plainRecordType ext (TStruct fs)" and pr: "plainRecord ext (TStruct fs) r"
    and hk: "e_headerKeys e = map fieldName fs" and sp: "e_sep e = [Separator]"
  shows "EncodeRecord ext e (Some (TStruct fs, r))
           = (None, e\<lparr>w := w e @ recordLine ext fs r @ [CHR 0x0A]\<rparr>)"
proof -
  from pt have ne: "fs \<noteq> []" and sf: "\<forall>f\<in>set fs. simpleField f"
    and dn: "distinct (map fieldName fs)" and mf: "\<forall>f\<in>set fs. fieldMethodsFree ext (Type f)"
    and nm: "MarshalCSV ext (TStruct fs) = None"
    by (auto elim: plainRecordType_D)
  from pr obtain vs where r: "r = VStruct vs" and l: "length vs = length fs"
    and pv: "\<forall>j<length fs. plainValue ext (Type (fs ! j)) (vs ! j)"
    by (auto elim: plainRecord_D)
  have mfs: "marshalFields ext e False (TStruct fs) (VStruct vs) (map fieldName fs)
               = Inr (recordTokens ext fs (VStruct vs))"
    using marshalFields_record [OF sf dn l mf pv] .
  have dv: "derefValue False (TStruct fs) (VStruct vs) = Inr (Direct, TStruct fs, VStruct vs)"
    by (simp add: derefValue_def)
  have m: "marshal ext e (Some (TStruct fs, r))
             = (None, e\<lparr>w := w e @ recordLine ext fs r @ [CHR 0x0A]\<rparr>)"
    using r dv nm mfs hk sp
    by (simp add: marshal_def Encoder_output_def recordLine_def)
  show ?thesis using ne hk m by (simp add: EncodeRecord_def)
qed

lemma encodeRecords_plain:
  assumes pt: "plainRecordType ext (TStruct fs)"
  shows "\<forall>r\<in>set recs. plainRecord ext (TStruct fs) r \<Longrightarrow>
         e_headerKeys e = map fieldName fs \<Longrightarrow> e_sep e = [Separator] \<Longrightarrow>
         encodeRecords ext e (TStruct fs) recs
           = (None, e\<lparr>w := w e @ concat (map (\<lambda>r. recordLine ext fs r @ [CHR 0x0A]) recs)\<rparr>)"
proof (induction recs arbitrary: e)
  case Nil
  then show ?case by simp
next
  case (Cons r recs)
  have pr: "plainRecord ext (TStruct fs) r" using Cons.prems(1) by simp
  let ?e1 = "e\<lparr>w := w e @ recordLine ext fs r @ [CHR 0x0A]\<rparr>"
  have one: "EncodeRecord ext e (Some (TStruct fs, r)) = (None, ?e1)"
    using EncodeRecord_plain [OF pt pr Cons.prems(2) Cons.prems(3)] .
  have rest: "encodeRecords ext ?e1 (TStruct fs) recs
           = (None, ?e1\<lparr>w := w ?e1 @ concat (map (\<lambda>r. recordLine ext fs r @ [CHR 0x0A]) recs)\<rparr>)"
    using Cons.IH [of ?e1] Cons.prems by simp
  show ?case using one rest by (simp add: elemInterface_def)
qed

lemma Marshal_plain:
  assumes pt: "plainRecordType ext (TStruct fs)" and ne: "recs \<noteq> []"
    and pr: "\<forall>r\<in>set recs. plainRecord ext (TStruct fs) r"
  shows "Marshal ext (Some (TSlice (TStruct fs), VSlice (Some recs)))
           = Inr (headerLine fs @ [CHR 0x0A]
                  @ concat (map (\<lambda>r. recordLine ext fs r @ [CHR 0x0A]) recs))"
proof -
  from pt have sf: "\<forall>f\<in>set fs. simpleField f" and dn: "distinct (map fieldName fs)"
    by (auto elim: plainRecordType_D)
  obtain r rs where recs: "recs = r # rs" using ne by (cases recs) auto
  let ?e0 = "NewEncoder []"
  let ?e1 = "?e0\<lparr>e_headerKeys := map fieldName fs, w := headerLine fs @ [CHR 0x0A]\<rparr>"
  have ti: "getTypeInfo (TStruct fs) = Inr (fieldInfos 0 fs)"
    using sf dn by (rule getTypeInfo_simple)
  have hd: "EncodeHeader ?e0 [] (Some (TStruct fs, r)) = (None, ?e1)"
    using ti by (simp add: EncodeHeader_def buildHeader_def ValueKind_def NewEncoder_def
                      Encoder_output_def fieldInfos_names headerLine_def)
  have er: "encodeRecords ext ?e1 (TStruct fs) recs
           = (None, ?e1\<lparr>w := w ?e1 @ concat (map (\<lambda>r. recordLine ext fs r @ [CHR 0x0A]) recs)\<rparr>)"
    using encodeRecords_plain [OF pt pr, of ?e1] by (simp add: NewEncoder_def)
  show ?thesis using recs hd er
    by (simp add: Marshal_def Encode_def Indirect_def sliceElems_def elemInterface_def)
qed

subsection \<open>What Unmarshal reads\<close>

lemma Join_no_LF:
  "\<forall>t\<in>set ts. CHR 0x0A \<notin> set t \<Longrightarrow> CHR 0x0A \<notin> set (Join ts [Separator])"
  by (induction ts "[Separator]" rule: Join.induct) (auto simp: Separator_def)

lemma TrimRightSpaceRev_hd:
  "TrimRightSpaceRev x \<noteq> [] \<Longrightarrow> \<not> asciiSpace (hd (TrimRightSpaceRev x))"
  by (induction x rule: TrimRightSpaceRev.induct) (auto split: if_splits)

lemma TrimSpace_last: "TrimSpace t = t \<Longrightarrow> t \<noteq> [] \<Longrightarrow> \<not> asciiSpace (last t)"
proof -
  assume a: "TrimSpace t = t" and ne: "t \<noteq> []"
  let ?x = "TrimRightSpaceRev (rev (TrimLeftSpace t))"
  have t: "t = rev ?x" using a by (simp add: TrimSpace_def)
  then have "?x \<noteq> []" using ne by auto
  then have "\<not> asciiSpace (hd ?x)" by (rule TrimRightSpaceRev_hd)
  moreover have "last t = hd ?x" using t \<open>?x \<noteq> []\<close> by (metis last_rev)
  ultimately show ?thesis by simp
qed

lemma last_Join:
  "ts \<noteq> [] \<Longrightarrow> Join ts [c] \<noteq> [] \<Longrightarrow>
   last (Join ts [c]) = (if last ts = [] then c else last (last ts))"
proof (induction ts "[c]" rule: Join.induct)
  case 1
  then show ?case by simp
next
  case (2 a)
  then show ?case by simp
next
  case (3 a b r)
  show ?case
  proof (cases "Join (b # r) [c] = []")
    case True
    then have "r = [] \<and> b = []" by (cases r) auto
    then show ?thesis by simp
  next
    case False
    then show ?thesis using 3 by simp
  qed
qed

lemma dropCR_Join:
  assumes "\<forall>t\<in>set ts. TrimSpace t = t" and "ts \<noteq> []"
  shows "dropCR (Join ts [Separator]) = Join ts [Separator]"
proof (cases "Join ts [Separator] = []")
  case True
  then show ?thesis by (simp add: dropCR_def)
next
  case False
  have "last (Join ts [Separator]) \<noteq> CHR 0x0D"
  proof (cases "last ts = []")
    case True
    then show ?thesis using last_Join [OF assms(2) False] by (simp add: Separator_def)
  next
    case ne: False
    have "last ts \<in> set ts" using assms(2) by simp
    then have "TrimSpace (last ts) = last ts" using assms(1) by blast
    then have "\<not> asciiSpace (last (last ts))" using ne by (rule TrimSpace_last)
    then have "last (last ts) \<noteq> CHR 0x0D" by (auto simp: asciiSpace_def)
    then show ?thesis using last_Join [OF assms(2) False] ne by simp
  qed
  then show ?thesis by (simp add: dropCR_def)
qed

lemma Scan_Join_line:
  assumes "ts \<noteq> []" and "\<forall>t\<in>set ts. headerName t" and "lineOK (Join ts [Separator])"
  shows "Scan (Join ts [Separator] @ CHR 0x0A # rest) = Token (Join ts [Separator]) rest"
proof (rule Scan_line)
  show "CHR 0x0A \<notin> set (Join ts [Separator])"
    using assms(2) by (intro Join_no_LF) (simp add: headerName_def)
  show "length (Join ts [Separator]) < MaxScanTokenSize"
    using assms(3) by (simp add: lineOK_def)
  show "dropCR (Join ts [Separator]) = Join ts [Separator]"
    using assms(1,2) by (intro dropCR_Join) (simp_all add: headerName_def)
qed

lemma plainString_headerName: "plainString t \<Longrightarrow> headerName t"
  by (simp add: plainString_def headerName_def)

lemma recordTokens_plain:
  assumes pt: "plainRecordType ext (TStruct fs)" and pr: "plainRecord ext (TStruct fs) r"
  shows "length (recordTokens ext fs r) = length fs"
    and "\<forall>t\<in>set (recordTokens ext fs r). plainString t"
proof -
  from pt have mf: "\<forall>f\<in>set fs. fieldMethodsFree ext (Type f)"
    by (auto elim: plainRecordType_D)
  from pr obtain vs where r: "r = VStruct vs" and l: "length vs = length fs"
    and pv: "\<forall>j<length fs. plainValue ext (Type (fs ! j)) (vs ! j)"
    by (auto elim: plainRecord_D)
  show len: "length (recordTokens ext fs r) = length fs"
    using r l by (simp add: recordTokens_def structFields_def)
  show "\<forall>t\<in>set (recordTokens ext fs r). plainString t"
  proof
    fix t assume "t \<in> set (recordTokens ext fs r)"
    then obtain j where j: "j < length fs" and t: "t = recordTokens ext fs r ! j"
      using len by (metis in_set_conv_nth)
    have tj: "t = fieldToken ext (fs ! j) (vs ! j)"
      using t j r l by (simp add: recordTokens_def structFields_def)
    have "Stringer ext (Type (fs ! j)) = None"
      using mf j by (simp add: fieldMethodsFree_def Option.is_none_def)
    then show "plainString t"
      using fieldToken_plain(2) [of ext "fs ! j" "vs ! j"] pv j tj by simp
  qed
qed

lemma tokenize_recordLine:
  assumes pt: "plainRecordType ext (TStruct fs)" and pr: "plainRecord ext (TStruct fs) r"
    and sp: "sep d = Separator"
  shows "tokenize d (recordLine ext fs r) = recordTokens ext fs r"
proof -
  from pt have ne: "fs \<noteq> []" by (auto elim: plainRecordType_D)
  have len: "length (recordTokens ext fs r) = length fs"
    and pl: "\<forall>t\<in>set (recordTokens ext fs r). plainString t"
    using recordTokens_plain [OF pt pr] by simp_all
  have tne: "recordTokens ext fs r \<noteq> []" using len ne by auto
  have nosep: "\<forall>t\<in>set (recordTokens ext fs r). Separator \<notin> set t"
    using pl by (simp add: plainString_def)
  have unq: "\<forall>t\<in>set (recordTokens ext fs r). unquoted t"
    using pl by (simp add: plainString_def unquoted_def)
  show ?thesis
    using Split_Join [OF tne nosep] combineTokens_unquoted [OF unq] sp
    by (simp add: tokenize_def recordLine_def)
qed

lemma mapField_plain:
  assumes pt: "plainRecordType ext (TStruct fs)" and j: "j < length fs"
    and l: "length cur = length fs" and z: "cur ! j = zero (Type (fs ! j))"
    and pv: "plainValue ext (Type (fs ! j)) v" and cs: "CanSet fl"
  shows "mapField ext d fl (TStruct fs) i (fieldName (fs ! j)) (fieldToken ext (fs ! j) v) (VStruct cur)
           = (None, VStruct (cur[j := v]))"
proof -
  from pt have sf: "\<forall>f\<in>set fs. simpleField f" and dn: "distinct (map fieldName fs)"
    and mf: "\<forall>f\<in>set fs. fieldMethodsFree ext (Type f)"
    by (auto elim: plainRecordType_D)
  have free: "fieldMethodsFree ext (Type (fs ! j))" using mf j by simp
  then have st: "Stringer ext (Type (fs ! j)) = None" by (simp add: fieldMethodsFree_def Option.is_none_def)
  let ?tok = "fieldToken ext (fs ! j) v"
  have pl: "plainString ?tok" using fieldToken_plain(2) [OF st pv] .
  then have tr: "TrimSpace ?tok = ?tok" and rq: "ReplaceQuotes ?tok = ?tok"
    by (simp_all add: plainString_def)
  have sv: "setValue ext fl (Type (fs ! j)) (zero (Type (fs ! j))) ?tok (fieldName (fs ! j)) = (None, v)"
    using fieldToken_plain(3) [OF st pv cs] .
  have find: "findStructField fl (TStruct fs) (VStruct cur) (fieldName (fs ! j))
           = Inr (Some (structFieldInfo j (fs ! j)), VStruct cur)"
    using findStructField_simple(1) [OF sf dn j l] .
  have jc: "j < length cur" using j l by simp
  have ro: "\<not> flagRO fl" using cs by (simp add: CanSet_def)
  have fl: "valueFlag 0 fl (TStruct fs) [j] = fl"
    using field_access(5) [OF jc, of fl fs] fieldFlag_simple [of "fs ! j" fl] sf j ro by simp
  have acc: "fieldType 0 (TStruct fs) [j] = Type (fs ! j)"
    "fieldGet 0 (TStruct fs) (VStruct cur) [j] = cur ! j"
    "fieldSet 0 (TStruct fs) (VStruct cur) [j] v = VStruct (cur[j := v])"
    using field_access(1,2,3) [OF jc] by simp_all
  have ci: "CanInterface fl" using ro by (simp add: CanInterface_def)
  show ?thesis
    using find tr rq sv free z ci
    by (simp add: mapField_def structFieldInfo_idx acc fl Let_def
                  fieldMethodsFree_def Option.is_none_def
             del: fieldType.simps fieldGet.simps fieldSet.simps valueFlag.simps)
qed

lemma mapFields_plain_suffix:
  assumes pt: "plainRecordType ext (TStruct fs)" and l: "length vs = length fs"
    and pv: "\<forall>j<length fs. plainValue ext (Type (fs ! j)) (vs ! j)" and cs: "CanSet fl"
  shows "j \<le> length fs \<Longrightarrow>
         mapFields ext d fl (TStruct fs) j (drop j (map fieldName fs))
                   (drop j (recordTokens ext fs (VStruct vs)))
                   (VStruct (take j vs @ drop j (map (\<lambda>f. zero (Type f)) fs)))
           = (None, VStruct vs)"
proof (induction "length fs - j" arbitrary: j)
  case 0
  then have "j = length fs" by simp
  then show ?case using l by simp
next
  case (Suc k)
  then have j: "j < length fs" by simp
  let ?zs = "map (\<lambda>f. zero (Type f)) fs"
  let ?cur = "take j vs @ drop j ?zs"
  have lt: "length (recordTokens ext fs (VStruct vs)) = length fs"
    using l by (simp add: recordTokens_def structFields_def)
  have dn: "drop j (map fieldName fs) = fieldName (fs ! j) # drop (Suc j) (map fieldName fs)"
    using j by (simp add: Cons_nth_drop_Suc [symmetric])
  have tj: "recordTokens ext fs (VStruct vs) ! j = fieldToken ext (fs ! j) (vs ! j)"
    using j l by (simp add: recordTokens_def structFields_def)
  have dt: "drop j (recordTokens ext fs (VStruct vs))
              = fieldToken ext (fs ! j) (vs ! j) # drop (Suc j) (recordTokens ext fs (VStruct vs))"
    using j lt tj by (simp add: Cons_nth_drop_Suc [symmetric])
  have lc: "length ?cur = length fs" using l j by simp
  have cj: "?cur ! j = zero (Type (fs ! j))" using l j by (simp add: nth_append)
  have col: "mapField ext d fl (TStruct fs) j (fieldName (fs ! j)) (fieldToken ext (fs ! j) (vs ! j))
               (VStruct ?cur) = (None, VStruct (?cur[j := vs ! j]))"
    using mapField_plain [OF pt j lc cj _ cs] pv j by simp
  have upd: "?cur[j := vs ! j] = take (Suc j) vs @ drop (Suc j) ?zs"
    using l j by (simp add: list_update_append take_Suc_conv_app_nth drop_Suc
                    Cons_nth_drop_Suc [symmetric] upd_conv_take_nth_drop)
  have ih: "mapFields ext d fl (TStruct fs) (Suc j) (drop (Suc j) (map fieldName fs))
                   (drop (Suc j) (recordTokens ext fs (VStruct vs)))
                   (VStruct (take (Suc j) vs @ drop (Suc j) ?zs)) = (None, VStruct vs)"
    using Suc.hyps(1) [of "Suc j"] Suc.hyps(2) j by simp
  show ?case by (simp only: dn dt mapFields.simps col upd ih prod.case option.case)
qed

lemma unmarshal_plain:
  assumes pt: "plainRecordType ext (TStruct fs)" and pr: "plainRecord ext (TStruct fs) r"
    and hk: "headerKeys d = map fieldName fs" and sp: "sep d = Separator"
  shows "unmarshal ext d True (TStruct fs) (zero (TStruct fs)) (recordLine ext fs r) = (None, r)"
proof -
  from pt have n1: "UnmarshalCSV ext (TStruct fs) = None"
    and n2: "UnmarshalCSV ext (TPtr (TStruct fs)) = None"
    by (auto elim: plainRecordType_D)
  from pr obtain vs where r: "r = VStruct vs" and l: "length vs = length fs"
    and pv: "\<forall>j<length fs. plainValue ext (Type (fs ! j)) (vs ! j)"
    by (auto elim: plainRecord_D)
  have tk: "tokenize d (recordLine ext fs r) = recordTokens ext fs r"
    using tokenize_recordLine [OF pt pr sp] .
  have len: "length (recordTokens ext fs r) = length fs"
    using recordTokens_plain(1) [OF pt pr] .
  have dv: "derefValue True (TStruct fs) (zero (TStruct fs))
              = Inr (Direct, TStruct fs, zero (TStruct fs))"
    by (simp add: derefValue_def)
  have mf: "mapFields ext d settable (TStruct fs) 0 (map fieldName fs) (recordTokens ext fs r)
              (zero (TStruct fs)) = (None, r)"
    using mapFields_plain_suffix [OF pt l pv CanSet_settable, of 0 d] r by simp
  show ?thesis
    using tk len hk dv n1 n2 mf by (simp add: unmarshal_def)
qed

lemma Append_slice: "Append (VSlice (Some xs)) x = VSlice (Some (xs @ [x]))"
  by (simp add: Append_def)

lemma decodeLines_plain:
  assumes pt: "plainRecordType ext (TStruct fs)"
  shows "\<forall>r\<in>set recs. plainRecord ext (TStruct fs) r \<Longrightarrow>
         headerKeys d = map fieldName fs \<Longrightarrow> sep d = Separator \<Longrightarrow> comment d = Comment \<Longrightarrow>
         s d = concat (map (\<lambda>r. recordLine ext fs r @ [CHR 0x0A]) recs) \<Longrightarrow>
         fst (decodeLines ext d (TStruct fs) (VSlice (Some xs))) = None
         \<and> snd (snd (decodeLines ext d (TStruct fs) (VSlice (Some xs)))) = VSlice (Some (xs @ recs))"
proof (induction recs arbitrary: d xs)
  case Nil
  then have "Scan (s d) = AtEOF" by (simp add: Scan_def)
  then show ?case by (subst decodeLines.simps) simp
next
  case (Cons r recs)
  from pt have ne: "fs \<noteq> []" by (auto elim: plainRecordType_D)
  have pr: "plainRecord ext (TStruct fs) r" using Cons.prems(1) by simp
  let ?line = "recordLine ext fs r"
  let ?rest = "concat (map (\<lambda>r. recordLine ext fs r @ [CHR 0x0A]) recs)"
  let ?d1 = "d\<lparr>s := ?rest, lineNo := lineNo d + 1\<rparr>"
  have ok: "lineOK ?line" using pr by (auto elim: plainRecord_D)
  have len: "length (recordTokens ext fs r) = length fs"
    and pl: "\<forall>t\<in>set (recordTokens ext fs r). plainString t"
    using recordTokens_plain [OF pt pr] by simp_all
  have tne: "recordTokens ext fs r \<noteq> []" using len ne by auto
  have hn: "\<forall>t\<in>set (recordTokens ext fs r). headerName t"
    using pl plainString_headerName by blast
  have sc: "Scan (s d) = Token ?line ?rest"
    using Scan_Join_line [OF tne hn, of ?rest] ok Cons.prems(5) by (simp add: recordLine_def)
  have um: "unmarshal ext ?d1 True (TStruct fs) (zero (TStruct fs)) ?line = (None, r)"
    using unmarshal_plain [OF pt pr, of ?d1] Cons.prems(2,3) by simp
  have hk: "headerKeys ?d1 \<noteq> []" using Cons.prems(2) ne by simp
  have step: "decodeLines ext d (TStruct fs) (VSlice (Some xs))
                = decodeLines ext ?d1 (TStruct fs) (VSlice (Some (xs @ [r])))"
    using sc ok um hk Cons.prems(4)
    by (subst decodeLines.simps) (simp add: lineOK_def Append_slice Let_def del: decodeLines.simps)
  have ih: "fst (decodeLines ext ?d1 (TStruct fs) (VSlice (Some (xs @ [r])))) = None
         \<and> snd (snd (decodeLines ext ?d1 (TStruct fs) (VSlice (Some (xs @ [r])))))
             = VSlice (Some ((xs @ [r]) @ recs))"
    using Cons.IH [of ?d1 "xs @ [r]"] Cons.prems by simp
  show ?case using step ih by simp
qed

lemma decodeLines_header:
  assumes pt: "plainRecordType ext (TStruct fs)"
  shows "decodeLines ext (NewDecoder (headerLine fs @ CHR 0x0A # body)) et val
           = decodeLines ext ((NewDecoder body)\<lparr>lineNo := 1, headerKeys := map fieldName fs\<rparr>) et val"
proof -
  from pt have ne: "fs \<noteq> []" and hn: "\<forall>f\<in>set fs. headerName (fieldName f)"
    and ok: "lineOK (headerLine fs)"
    by (auto elim: plainRecordType_D)
  let ?names = "map fieldName fs"
  have nne: "?names \<noteq> []" using ne by simp
  have hn': "\<forall>t\<in>set ?names. headerName t" using hn by simp
  have sc: "Scan (headerLine fs @ CHR 0x0A # body) = Token (headerLine fs) body"
    using Scan_Join_line [OF nne hn', of body] ok by (simp add: headerLine_def)
  have nosep: "\<forall>t\<in>set ?names. Separator \<notin> set t" using hn by (simp add: headerName_def)
  have sj: "Split (headerLine fs) Separator = ?names"
    using Split_Join [OF nne nosep] by (simp add: headerLine_def)
  have tr: "map TrimSpace ?names = ?names"
    using hn by (intro map_idI) (auto simp: headerName_def)
  have ne0: "headerLine fs \<noteq> []" and nc: "\<not> HasPrefix (headerLine fs) [Comment]"
    using ok by (simp_all add: lineOK_def)
  have tr': "map (TrimSpace \<circ> fieldName) fs = map fieldName fs"
    using tr by simp
  show ?thesis
    by (subst decodeLines.simps)
       (simp add: NewDecoder_def sc ne0 nc DecodeHeader_def sj tr' ne Let_def
             del: decodeLines.simps)
qed

text \<open>
  Strings that are not plain do not come back: a separator in a string gives a line
  with one token more than the header has names, a string that begins the line
  with the comment character gives a comment, and the empty string of a record with
  one field gives an empty line; the decoder rejects the first and skips the others.
\<close>

lemma round_trip_needs_plain_records:
  "Marshal testExtern (Some (TSlice typeS, VSlice (Some [VStruct [VString ''a,b'']])))
     = Inr (''s'' @ [CHR 0x0A] @ ''a,b'' @ [CHR 0x0A])
   \<and> Unmarshal testExtern (''s'' @ [CHR 0x0A] @ ''a,b'' @ [CHR 0x0A])
                 (Some (TPtr (TSlice typeS), VPtr (Some (VSlice (Some [])))))
     = (Some (DecodeError 2 0 ''number of fields does not match header'' None),
        Some (TPtr (TSlice typeS), VPtr (Some (VSlice (Some [])))))
   \<and> Marshal testExtern (Some (TSlice typeS, VSlice (Some [VStruct [VString ''#1'']])))
     = Inr (''s'' @ [CHR 0x0A] @ ''#1'' @ [CHR 0x0A])
   \<and> Unmarshal testExtern (''s'' @ [CHR 0x0A] @ ''#1'' @ [CHR 0x0A])
                 (Some (TPtr (TSlice typeS), VPtr (Some (VSlice (Some [])))))
     = (None, Some (TPtr (TSlice typeS), VPtr (Some (VSlice (Some [])))))
   \<and> Marshal testExtern (Some (TSlice typeS, VSlice (Some [VStruct [VString []]])))
     = Inr (''s'' @ [CHR 0x0A] @ [CHR 0x0A])
   \<and> Unmarshal testExtern (''s'' @ [CHR 0x0A] @ [CHR 0x0A])
                 (Some (TPtr (TSlice typeS), VPtr (Some (VSlice (Some [])))))
     = (None, Some (TPtr (TSlice typeS), VPtr (Some (VSlice (Some [])))))"
  by code_simp

text \<open>
  C1, as amended: for a plain record type and a non-empty sequence of plain records
  of it, \<open>Marshal\<close> succeeds, and \<open>Unmarshal\<close> of its output into a pointer to an
  empty slice of that type returns no error and leaves the slice equal to the
  sequence.
\<close>

theorem Marshal_Unmarshal_round_trip:
  assumes pt: "plainRecordType ext t" and ne: "recs \<noteq> []"
    and pr: "\<forall>r\<in>set recs. plainRecord ext t r"
  shows "\<exists>data. Marshal ext (Some (TSlice t, VSlice (Some recs))) = Inr data
           \<and> Unmarshal ext data (Some (TPtr (TSlice t), VPtr (Some (VSlice (Some [])))))
               = (None, Some (TPtr (TSlice t), VPtr (Some (VSlice (Some recs)))))"
proof -
  from pt obtain fs where t: "t = TStruct fs" by (auto elim: plainRecordType_D)
  let ?body = "concat (map (\<lambda>r. recordLine ext fs r @ [CHR 0x0A]) recs)"
  let ?data = "headerLine fs @ CHR 0x0A # ?body"
  let ?d2 = "(NewDecoder ?body)\<lparr>lineNo := 1, headerKeys := map fieldName fs\<rparr>"
  have m: "Marshal ext (Some (TSlice t, VSlice (Some recs))) = Inr ?data"
    using Marshal_plain [of ext fs recs] pt ne pr t by simp
  have dl: "fst (decodeLines ext ?d2 (TStruct fs) (VSlice (Some []))) = None
         \<and> snd (snd (decodeLines ext ?d2 (TStruct fs) (VSlice (Some [])))) = VSlice (Some ([] @ recs))"
    using pt pr t
    by (intro decodeLines_plain [of ext fs recs ?d2 "[]"]) (simp_all add: NewDecoder_def)
  have hdr: "decodeLines ext (NewDecoder ?data) (TStruct fs) (VSlice (Some []))
           = decodeLines ext ?d2 (TStruct fs) (VSlice (Some []))"
    using decodeLines_header [of ext fs ?body "TStruct fs" "VSlice (Some [])"] pt t by simp
  obtain err d' v' where res: "decodeLines ext (NewDecoder ?data) (TStruct fs) (VSlice (Some []))
                                 = (err, d', v')"
    by (cases "decodeLines ext (NewDecoder ?data) (TStruct fs) (VSlice (Some []))")
  with hdr dl have e: "err = None" and v: "v' = VSlice (Some recs)" by simp_all
  have rh: "readHeader (NewDecoder ?data)" by (simp add: NewDecoder_def)
  have u: "Unmarshal ext ?data (Some (TPtr (TSlice t), VPtr (Some (VSlice (Some [])))))
             = (None, Some (TPtr (TSlice t), VPtr (Some (VSlice (Some recs)))))"
    using res e v rh t
    by (simp add: Unmarshal_def Decode_def ValueKind_def Indirect_def del: decodeLines.simps)
  show ?thesis using m u by blast
qed

theorem Marshal_Unmarshal_round_trip_witness:
  "\<exists>data. Marshal testExtern (Some (TSlice typeA, VSlice (Some [A1, A2]))) = Inr data
           \<and> Unmarshal testExtern data (Some (TPtr (TSlice typeA), VPtr (Some (VSlice (Some [])))))
               = (None, Some (TPtr (TSlice typeA), VPtr (Some (VSlice (Some [A1, A2])))))"
proof -
  have pt: "plainRecordType testExtern typeA" by code_simp
  have ne: "[A1, A2] \<noteq> []" by simp
  have p1: "plainRecord testExtern typeA A1" by code_simp
  have p2: "plainRecord testExtern typeA A2" by code_simp
  have pr: "\<forall>r\<in>set [A1, A2]. plainRecord testExtern typeA r" using p1 p2 by simp
  show ?thesis using Marshal_Unmarshal_round_trip [OF pt ne pr] .
qed


text \<open>
  C1 as it stands fails on any string with white space around it: the encoder trims
  string values (\<open>TestMarshalWithTrim\<close> expects it), so \<open>Marshal\<close> of \<open>A3\<close>, whose
  string has three blanks on each side, writes \<open>Hello\<close>, and \<open>Unmarshal\<close> gives
  \<open>A1\<close>.
\<close>

theorem Marshal_Unmarshal_trims_strings:
  "Marshal testExtern (Some (TSlice typeA, VSlice (Some [A3])))
     = Inr (''s,b,i,f'' @ [CHR 0x0A] @ ''Hello,true,42,23.45'' @ [CHR 0x0A])
   \<and> Unmarshal testExtern (''s,b,i,f'' @ [CHR 0x0A] @ ''Hello,true,42,23.45'' @ [CHR 0x0A])
                 (Some (TPtr (TSlice typeA), VPtr (Some (VSlice (Some [])))))
     = (None, Some (TPtr (TSlice typeA), VPtr (Some (VSlice (Some [A1])))))
   \<and> A1 \<noteq> A3"
  by code_simp

end
